theory Spec2Isabelle
  imports Complex_Main "HOL-Library.List_Lexorder" "HOL-Library.Char_ord" "HOL-Library.Multiset"
begin

section \<open>JavaScript values\<close>

text \<open>
  The hook \<open>useQueryParams\<close> (module \<open>useQueryParams\<close>) moves typed values between
  the query string of \<open>window.location\<close> and React state. Its values are JavaScript
  values: primitives are compared by value, objects (a \<open>Date\<close>, an array, a plain
  object) by reference. An object therefore carries the address it was allocated at;
  two objects are the same object iff their addresses are equal. What is nested inside an
  array or a plain object is never compared by the hook, so it is plain data. A
  \<open>BigInt\<close> stands for the values that \<open>JSON.stringify\<close> refuses.

  A JavaScript string is modelled by \<open>string\<close>: the sequence of the bytes of its UTF-8
  encoding. A number is a finite value, an infinity or \<open>NaN\<close>; the finite doubles are
  among the rationals.
\<close>

datatype number = Fin rat | PosInf | NegInf | NaN

datatype json =
    JNull
  | JBool bool
  | JNum number
  | JStr string
  | JArr "json list"
  | JObj "(string \<times> json) list"

datatype jsval =
    Undefined
  | Null
  | Bool bool
  | Num number
  | Str string
  | BigInt int
  | DateObj nat "int option"
  | ArrObj nat "json list"
  | RecObj nat "(string \<times> json) list"

text \<open>
  \<open>DateObj a t\<close> is the \<open>Date\<close> object at address \<open>a\<close>; its time value \<open>t\<close> is a
  number of milliseconds, or \<open>None\<close> for an invalid date (time value \<open>NaN\<close>).
  \<open>ArrObj a xs\<close> is the array at address \<open>a\<close>, \<open>RecObj a kvs\<close> the plain object.
\<close>

datatype error =
    Error string
  | TypeError string
  | RangeError string
  | SyntaxError string
  | URIError string

text \<open>\<open>Number.isFinite\<close> on a number.\<close>

fun isFinite :: "number \<Rightarrow> bool" where
  "isFinite (Fin r) = True"
| "isFinite PosInf = False"
| "isFinite NegInf = False"
| "isFinite NaN = False"

text \<open>
  \<open>const isFiniteNumber = (v) => typeof v === 'number' && Number.isFinite(v)\<close> and
  \<open>const isStringArray = (v) => Array.isArray(v) && v.every((x) => typeof x === 'string')\<close>.
\<close>

fun isFiniteNumber :: "jsval \<Rightarrow> bool" where
  "isFiniteNumber (Num n) = isFinite n"
| "isFiniteNumber _ = False"

fun isJStr :: "json \<Rightarrow> bool" where
  "isJStr (JStr s) = True"
| "isJStr _ = False"

fun unJStr :: "json \<Rightarrow> string" where
  "unJStr (JStr s) = s"
| "unJStr _ = []"

fun isStringArray :: "jsval \<Rightarrow> bool" where
  "isStringArray (ArrObj a xs) = list_all isJStr xs"
| "isStringArray _ = False"

text \<open>The strict equality \<open>a === b\<close>: \<open>NaN\<close> differs from itself, objects are equal
  when they are the same object.\<close>

fun strictEq :: "jsval \<Rightarrow> jsval \<Rightarrow> bool" where
  "strictEq Undefined Undefined = True"
| "strictEq Null Null = True"
| "strictEq (Bool a) (Bool b) = (a = b)"
| "strictEq (Num a) (Num b) = (a = b \<and> a \<noteq> NaN)"
| "strictEq (Str a) (Str b) = (a = b)"
| "strictEq (BigInt a) (BigInt b) = (a = b)"
| "strictEq (DateObj a s) (DateObj b t) = (a = b)"
| "strictEq (ArrObj a xs) (ArrObj b ys) = (a = b)"
| "strictEq (RecObj a xs) (RecObj b ys) = (a = b)"
| "strictEq _ _ = False"

text \<open>\<open>v == null\<close> (true of \<open>null\<close> and \<open>undefined\<close>), and the truthiness that
  \<open>||\<close> tests.\<close>

fun nullish :: "jsval \<Rightarrow> bool" where
  "nullish Undefined = True"
| "nullish Null = True"
| "nullish _ = False"

fun truthy :: "jsval \<Rightarrow> bool" where
  "truthy Undefined = False"
| "truthy Null = False"
| "truthy (Bool b) = b"
| "truthy (Num n) = (n \<noteq> NaN \<and> n \<noteq> Fin 0)"
| "truthy (Str s) = (s \<noteq> [])"
| "truthy (BigInt n) = (n \<noteq> 0)"
| "truthy _ = True"

text \<open>The value \<open>JSON.parse\<close> returns for parsed data, its outermost object allocated
  at address \<open>a\<close>.\<close>

fun reify :: "nat \<Rightarrow> json \<Rightarrow> jsval" where
  "reify a JNull = Null"
| "reify a (JBool b) = Bool b"
| "reify a (JNum n) = Num n"
| "reify a (JStr s) = Str s"
| "reify a (JArr xs) = ArrObj a xs"
| "reify a (JObj kvs) = RecObj a kvs"

section \<open>The host platform\<close>

text \<open>
  The functions of the JavaScript platform that the hook calls and that are not part of
  the repository are parameters of the model:
  \<^item> \<open>toNumber s\<close> is \<open>Number(s)\<close>, \<open>numToString n\<close> is \<open>String(n)\<close> for a number;
  \<^item> \<open>dateParse s\<close> is the time value of \<open>new Date(s)\<close>, \<open>None\<close> when it is \<open>NaN\<close>;
    \<open>toISOString t\<close> is \<open>d.toISOString()\<close> for a date of time value \<open>t\<close>;
  \<^item> \<open>jsonParse\<close>, \<open>jsonStringify\<close>, \<open>decodeURIComponent\<close> and \<open>encodeURIComponent\<close>
    return a result or throw (\<open>Inl\<close>); \<open>JSON.stringify\<close> returns \<open>undefined\<close>
    (\<open>None\<close>) for a value that has no JSON text;
  \<^item> \<open>a.localeCompare(b)\<close> compares the collation keys \<open>localeKey a\<close> and
    \<open>localeKey b\<close>, which live in a linear order.
\<close>

record 'o host =
  toNumber :: "string \<Rightarrow> number"
  numToString :: "number \<Rightarrow> string"
  dateParse :: "string \<Rightarrow> int option"
  toISOString :: "int \<Rightarrow> string"
  jsonParse :: "string \<Rightarrow> error + json"
  jsonStringify :: "jsval \<Rightarrow> error + string option"
  decodeURIComponent :: "string \<Rightarrow> error + string"
  encodeURIComponent :: "string \<Rightarrow> error + string"
  localeKey :: "string \<Rightarrow> 'o"

section \<open>URLSearchParams\<close>

text \<open>
  A \<open>URLSearchParams\<close> object is its list of name-value pairs. \<open>toString\<close> and the
  constructor from a string are the \<open>application/x-www-form-urlencoded\<close> serializer
  and parser of the URL standard, on bytes.
\<close>

type_synonym searchParams = "(string \<times> string) list"

definition sp_get :: "searchParams \<Rightarrow> string \<Rightarrow> string option" where
  "sp_get sp k = map_of sp k"

definition sp_getAll :: "searchParams \<Rightarrow> string \<Rightarrow> string list" where
  "sp_getAll sp k = map snd (filter (\<lambda>p. fst p = k) sp)"

definition sp_delete :: "searchParams \<Rightarrow> string \<Rightarrow> searchParams" where
  "sp_delete sp k = filter (\<lambda>p. fst p \<noteq> k) sp"

definition sp_append :: "searchParams \<Rightarrow> string \<Rightarrow> string \<Rightarrow> searchParams" where
  "sp_append sp k v = sp @ [(k, v)]"

text \<open>\<open>set\<close> overwrites the first pair of that name and removes the others; it appends
  when there is none.\<close>

fun sp_set :: "searchParams \<Rightarrow> string \<Rightarrow> string \<Rightarrow> searchParams" where
  "sp_set [] k v = [(k, v)]"
| "sp_set (p # ps) k v =
     (if fst p = k then (k, v) # sp_delete ps k else p # sp_set ps k v)"

definition hexDigits :: string where
  "hexDigits = ''0123456789ABCDEF''"

definition hexdigit :: "nat \<Rightarrow> char" where
  "hexdigit n = hexDigits ! (n mod 16)"

definition unhex :: "char \<Rightarrow> nat option" where
  "unhex c =
     (let n = (of_char c :: nat) in
      if 48 \<le> n \<and> n \<le> 57 then Some (n - 48)
      else if 65 \<le> n \<and> n \<le> 70 then Some (n - 55)
      else if 97 \<le> n \<and> n \<le> 102 then Some (n - 87)
      else None)"

definition isUrlSafe :: "char \<Rightarrow> bool" where
  "isUrlSafe c =
     (let n = (of_char c :: nat) in
      (48 \<le> n \<and> n \<le> 57) \<or> (65 \<le> n \<and> n \<le> 90) \<or> (97 \<le> n \<and> n \<le> 122)
      \<or> n = 42 \<or> n = 45 \<or> n = 46 \<or> n = 95)"

definition encByte :: "char \<Rightarrow> string" where
  "encByte c =
     (if c = CHR '' '' then ''+''
      else if isUrlSafe c then [c]
      else [CHR ''%'', hexdigit ((of_char c :: nat) div 16), hexdigit ((of_char c :: nat) mod 16)])"

definition formEncode :: "string \<Rightarrow> string" where
  "formEncode s = concat (map encByte s)"

fun joinAmp :: "string list \<Rightarrow> string" where
  "joinAmp [] = []"
| "joinAmp [x] = x"
| "joinAmp (x # y # ys) = x @ CHR ''&'' # joinAmp (y # ys)"

definition encPair :: "string \<times> string \<Rightarrow> string" where
  "encPair p = formEncode (fst p) @ CHR ''='' # formEncode (snd p)"

definition sp_toString :: "searchParams \<Rightarrow> string" where
  "sp_toString sp = joinAmp (map encPair sp)"

fun percentDecode :: "string \<Rightarrow> string" where
  "percentDecode [] = []"
| "percentDecode [c] = [c]"
| "percentDecode [c, a] = c # percentDecode [a]"
| "percentDecode (c # a # b # rest) =
     (if c = CHR ''%'' \<and> unhex a \<noteq> None \<and> unhex b \<noteq> None
      then char_of (16 * the (unhex a) + the (unhex b)) # percentDecode rest
      else c # percentDecode (a # b # rest))"

definition plusToSpace :: "char \<Rightarrow> char" where
  "plusToSpace c = (if c = CHR ''+'' then CHR '' '' else c)"

definition formDecode :: "string \<Rightarrow> string" where
  "formDecode s = percentDecode (map plusToSpace s)"

fun splitOn :: "char \<Rightarrow> string \<Rightarrow> string list" where
  "splitOn d [] = [[]]"
| "splitOn d (c # cs) =
     (if c = d then [] # splitOn d cs
      else (case splitOn d cs of [] \<Rightarrow> [[c]] | x # xs \<Rightarrow> (c # x) # xs))"

definition parsePair :: "string \<Rightarrow> string \<times> string" where
  "parsePair b =
     (formDecode (takeWhile (\<lambda>c. c \<noteq> CHR ''='') b),
      formDecode (drop 1 (dropWhile (\<lambda>c. c \<noteq> CHR ''='') b)))"

definition sp_parse :: "string \<Rightarrow> searchParams" where
  "sp_parse s = map parsePair (filter (\<lambda>b. b \<noteq> []) (splitOn (CHR ''&'') s))"

text \<open>\<open>new URLSearchParams(init)\<close>: one leading \<open>?\<close> of the string is dropped.\<close>

definition newURLSearchParams :: "string \<Rightarrow> searchParams" where
  "newURLSearchParams init =
     (case init of [] \<Rightarrow> sp_parse [] | c # cs \<Rightarrow> if c = CHR ''?'' then sp_parse cs else sp_parse init)"

section \<open>Declarations, options and state\<close>

text \<open>
  \<open>types.ts\<close>: the type tags, the history modes and the options. A declaration
  (\<open>QueryparamConfig\<close>) lists its keys in the order \<open>Object.keys\<close> gives them, and so
  does a patch. The default of each option is the one \<open>useQueryParams\<close> destructures
  (\<open>defaultOptions\<close>). The callbacks are user code: a validator, a custom parser
  and a custom serializer return a result or throw (\<open>Inl\<close>); the callback \<open>onError\<close>
  returns nothing (\<open>None\<close>) or throws (\<open>Some\<close> of the exception). Each call of
  \<open>onError\<close> that returns is recorded in the field \<open>reported\<close> of the state, with
  its three arguments.
\<close>

datatype QueryParamType = TString | TNumber | TBoolean | TDate | TStringArr | TObject

datatype HistoryMode = Push | Replace

type_synonym QueryparamConfig = "(string \<times> QueryParamType) list"

type_synonym errorCallback = "error \<Rightarrow> string \<Rightarrow> jsval \<Rightarrow> error option"

record customSerializer =
  serialize :: "jsval \<Rightarrow> error + string"
  parse :: "string \<Rightarrow> error + jsval"

record options =
  sortKeys :: bool
  defaultHistory :: HistoryMode
  defaultValues :: "string \<rightharpoonup> jsval"
  validation :: "string \<rightharpoonup> (jsval \<Rightarrow> error + bool)"
  customSerializers :: "string \<rightharpoonup> customSerializer"
  onError :: "errorCallback option"

definition defaultOptions :: options where
  "defaultOptions =
     \<lparr>sortKeys = False, defaultHistory = Replace, defaultValues = Map.empty,
      validation = Map.empty, customSerializers = Map.empty, onError = None\<rparr>"

text \<open>A \<open>QueryParamResult\<close> is an object: its address and its properties in insertion
  order. \<open>getProp\<close> is \<open>o[k]\<close>, \<open>setProp\<close> is \<open>o[k] = v\<close>.\<close>

record snapshot =
  addr :: nat
  props :: "(string \<times> jsval) list"

definition getProp :: "(string \<times> jsval) list \<Rightarrow> string \<Rightarrow> jsval" where
  "getProp ps k = (case map_of ps k of None \<Rightarrow> Undefined | Some v \<Rightarrow> v)"

fun setProp :: "(string \<times> jsval) list \<Rightarrow> string \<Rightarrow> jsval \<Rightarrow> (string \<times> jsval) list" where
  "setProp [] k v = [(k, v)]"
| "setProp (p # ps) k v = (if fst p = k then (k, v) # ps else p # setProp ps k v)"

text \<open>
  The state: the address of the page (\<open>url\<close>: path, query and fragment), the two
  functions stored in \<open>history.pushState\<close> and \<open>history.replaceState\<close>, the module
  variables of the hook's module (\<open>isHistoryPatched\<close>, \<open>originalPushState\<close>,
  \<open>originalReplaceState\<close>, \<open>patchCount\<close>, and \<open>subs\<close> of \<open>pushStateEventManager\<close>), the
  \<open>popstate\<close> listeners of \<open>window\<close>, and the mounted hook instances with the React
  state each holds. A callback \<open>handle\<close> is named by the instance that registered it.
  The other fields are observations: \<open>commits\<close> lists the calls of the browser's own
  history functions, \<open>invoked\<close> the calls of the callbacks \<open>handle\<close>, \<open>published\<close>
  the state updates, \<open>reported\<close> the calls of \<open>onError\<close>, \<open>validated\<close> the calls
  of validators; \<open>nextAddr\<close> is the next free address.
  The hook runs in a browser: the branches \<open>typeof window === 'undefined'\<close> are not
  modelled, nor is the logging of the development mode.
\<close>

datatype histfn = Native HistoryMode | Wrapper HistoryMode

record hook =
  config :: QueryparamConfig
  opts :: options
  params :: snapshot

record world =
  url :: string
  pushState :: histfn
  replaceState :: histfn
  isHistoryPatched :: bool
  originalPushState :: "histfn option"
  originalReplaceState :: "histfn option"
  patchCount :: int
  subs :: "nat list"
  popstateListeners :: "nat list"
  hooks :: "nat \<rightharpoonup> hook"
  commits :: "(HistoryMode \<times> string) list"
  invoked :: "nat list"
  published :: "(nat \<times> snapshot) list"
  reported :: "(error \<times> string \<times> jsval) list"
  validated :: "(string \<times> jsval) list"
  nextAddr :: nat

text \<open>A call \<open>onError(e, k, v)\<close> of the configured callback: an exception of the
  callback leaves the caller.\<close>

definition callOnError :: "errorCallback \<Rightarrow> error \<Rightarrow> string \<Rightarrow> jsval \<Rightarrow> world \<Rightarrow> error + world" where
  "callOnError cb e k v w =
     (case cb e k v of
        Some thrown \<Rightarrow> Inl thrown
      | None \<Rightarrow> Inr (w\<lparr>reported := reported w @ [(e, k, v)]\<rparr>))"

text \<open>\<open>window.location.pathname\<close>, \<open>.search\<close> and \<open>.hash\<close>: the parts of the address
  before the first \<open>?\<close> or \<open>#\<close>, from \<open>?\<close> up to \<open>#\<close>, and from \<open>#\<close>; an empty query
  or fragment reads as the empty string.\<close>

definition location_pathname :: "string \<Rightarrow> string" where
  "location_pathname u = takeWhile (\<lambda>c. c \<noteq> CHR ''?'' \<and> c \<noteq> CHR ''#'') u"

definition location_search :: "string \<Rightarrow> string" where
  "location_search u =
     (let q = takeWhile (\<lambda>c. c \<noteq> CHR ''#'') (dropWhile (\<lambda>c. c \<noteq> CHR ''?'' \<and> c \<noteq> CHR ''#'') u)
      in if q = ''?'' then [] else q)"

definition location_hash :: "string \<Rightarrow> string" where
  "location_hash u =
     (let f = dropWhile (\<lambda>c. c \<noteq> CHR ''#'') u in if f = ''#'' then [] else f)"

definition getSearchParams :: "world \<Rightarrow> searchParams" where
  "getSearchParams w = newURLSearchParams (location_search (url w))"

text \<open>\<open>toSortedQueryString\<close>: \<open>Array.prototype.sort\<close> is stable.\<close>

definition toSortedQueryString :: "('o::linorder) host \<Rightarrow> searchParams \<Rightarrow> string" where
  "toSortedQueryString h sp = sp_toString (sort_key (\<lambda>p. localeKey h (fst p)) sp)"

definition shallowEqual :: "snapshot \<Rightarrow> snapshot \<Rightarrow> bool" where
  "shallowEqual a b =
     (if addr a = addr b then True
      else if length (props a) \<noteq> length (props b) then False
      else list_all (\<lambda>k. strictEq (getProp (props a) k) (getProp (props b) k)) (map fst (props a)))"

section \<open>The codec\<close>

text \<open>The object \<open>v\<close> of the hook's module. The body of each \<open>try\<close> block returns
  a result or throws; the \<open>catch\<close> clause is the \<open>Inl\<close> branch of the inner \<open>case\<close>.
  The \<open>catch\<close> clauses of \<open>parseSingle\<close> and \<open>serializeSingle\<close> call \<open>onError\<close>,
  so that an exception of \<open>onError\<close> leaves the function (the result \<open>Inl\<close>).\<close>

definition parseSingle ::
  "'o host \<Rightarrow> string option \<Rightarrow> QueryParamType \<Rightarrow> (string \<Rightarrow> error + jsval) option
    \<Rightarrow> errorCallback option \<Rightarrow> string \<Rightarrow> world \<Rightarrow> error + jsval \<times> world" where
  "parseSingle h raw ty customParser onErr key w =
     (case raw of
        None \<Rightarrow> Inr (Undefined, w)
      | Some s \<Rightarrow>
          (case (case customParser of
                   Some p \<Rightarrow> (case p s of Inl e \<Rightarrow> Inl e | Inr r \<Rightarrow> Inr (r, w))
                 | None \<Rightarrow>
                     (case ty of
                        TString \<Rightarrow> Inr (Str s, w)
                      | TNumber \<Rightarrow>
                          (let n = toNumber h s in
                           if \<not> isFinite n then Inl (Error (''Invalid number: '' @ s))
                           else Inr (Num n, w))
                      | TBoolean \<Rightarrow>
                          (if s \<in> set [''true'', ''1''] then Inr (Bool True, w)
                           else if s \<in> set [''false'', ''0''] then Inr (Bool False, w)
                           else Inl (Error (''Invalid boolean: '' @ s)))
                      | TDate \<Rightarrow>
                          (case dateParse h s of
                             None \<Rightarrow> Inl (Error (''Invalid date: '' @ s))
                           | Some t \<Rightarrow>
                               Inr (DateObj (nextAddr w) (Some t), w\<lparr>nextAddr := Suc (nextAddr w)\<rparr>))
                      | _ \<Rightarrow> Inr (Undefined, w)))
           of
             Inr r \<Rightarrow> Inr r
           | Inl e \<Rightarrow>
               (case onErr of
                  Some cb \<Rightarrow>
                    if key \<noteq> []
                    then (case callOnError cb e key (Str s) w of
                            Inl thrown \<Rightarrow> Inl thrown
                          | Inr w1 \<Rightarrow> Inr (Undefined, w1))
                    else Inr (Undefined, w)
                | None \<Rightarrow> Inr (Undefined, w))))"

text \<open>In \<open>serializeSingle\<close> the tag is \<open>config[key]\<close>, which is \<open>undefined\<close> (\<open>None\<close>) for
  a key that is not declared. \<open>toISOString\<close> throws a \<open>RangeError\<close> on an invalid date.\<close>

definition serializeSingle ::
  "'o host \<Rightarrow> jsval \<Rightarrow> QueryParamType option \<Rightarrow> (jsval \<Rightarrow> error + string) option
    \<Rightarrow> errorCallback option \<Rightarrow> string \<Rightarrow> world \<Rightarrow> error + string option \<times> world" where
  "serializeSingle h nextVal ty customSer onErr key w =
     (case (case customSer of
              Some f \<Rightarrow> (case f nextVal of Inl e \<Rightarrow> Inl e | Inr s \<Rightarrow> Inr (Some s))
            | None \<Rightarrow>
                (case ty of
                   Some TString \<Rightarrow> Inr (case nextVal of Str s \<Rightarrow> Some s | _ \<Rightarrow> None)
                 | Some TNumber \<Rightarrow>
                     Inr (case nextVal of
                            Num n \<Rightarrow> if isFiniteNumber nextVal then Some (numToString h n) else None
                          | _ \<Rightarrow> None)
                 | Some TBoolean \<Rightarrow>
                     Inr (case nextVal of Bool b \<Rightarrow> Some (if b then ''true'' else ''false'') | _ \<Rightarrow> None)
                 | Some TDate \<Rightarrow>
                     (case nextVal of
                        DateObj a t \<Rightarrow>
                          (case t of
                             None \<Rightarrow> Inl (RangeError ''Invalid time value'')
                           | Some ms \<Rightarrow> Inr (Some (toISOString h ms)))
                      | _ \<Rightarrow> Inr None)
                 | _ \<Rightarrow> Inr None))
      of
        Inr r \<Rightarrow> Inr (r, w)
      | Inl e \<Rightarrow>
          (case onErr of
             Some cb \<Rightarrow>
               if key \<noteq> []
               then (case callOnError cb e key nextVal w of
                       Inl thrown \<Rightarrow> Inl thrown
                     | Inr w1 \<Rightarrow> Inr (None, w1))
               else Inr (None, w)
           | None \<Rightarrow> Inr (None, w)))"

definition parseObject :: "'o host \<Rightarrow> string option \<Rightarrow> world \<Rightarrow> jsval \<times> world" where
  "parseObject h raw w =
     (case raw of
        None \<Rightarrow> (Undefined, w)
      | Some s \<Rightarrow>
          (case decodeURIComponent h s of
             Inl e \<Rightarrow> (Undefined, w)
           | Inr d \<Rightarrow>
               (case jsonParse h d of
                  Inl e \<Rightarrow> (Undefined, w)
                | Inr j \<Rightarrow> (reify (nextAddr w) j, w\<lparr>nextAddr := Suc (nextAddr w)\<rparr>))))"

text \<open>\<open>encodeURIComponent(undefined)\<close> is the string \<open>undefined\<close>.\<close>

definition serializeObject :: "'o host \<Rightarrow> jsval \<Rightarrow> string option" where
  "serializeObject h nextVal =
     (case jsonStringify h nextVal of
        Inl e \<Rightarrow> None
      | Inr js \<Rightarrow>
          (case encodeURIComponent h (case js of None \<Rightarrow> ''undefined'' | Some t \<Rightarrow> t) of
             Inl e \<Rightarrow> None
           | Inr s \<Rightarrow> Some s))"

section \<open>Reading the address: getParams\<close>

text \<open>
  One turn of the loop of \<open>getParams\<close> is \<open>decodeKey\<close> (the three branches on the tag,
  which end with the decoded value or the default) followed by \<open>validateKey\<close> (the
  validator). \<open>sp.getAll\<close> returns a new array, and so does the literal \<open>[]\<close>.
  The validator and \<open>onError\<close> are called outside any \<open>try\<close> block: an exception
  of either leaves \<open>getParams\<close>.
\<close>

definition defaultOf :: "options \<Rightarrow> string \<Rightarrow> jsval" where
  "defaultOf opt key = (case defaultValues opt key of None \<Rightarrow> Undefined | Some d \<Rightarrow> d)"

definition decodeKey ::
  "'o host \<Rightarrow> options \<Rightarrow> searchParams \<Rightarrow> string \<Rightarrow> QueryParamType \<Rightarrow> world
    \<Rightarrow> error + jsval \<times> world" where
  "decodeKey h opt sp key ty w =
     (case ty of
        TStringArr \<Rightarrow>
          (let vals = sp_getAll sp key; w1 = w\<lparr>nextAddr := Suc (nextAddr w)\<rparr> in
           if vals \<noteq> [] then Inr (ArrObj (nextAddr w) (map JStr vals), w1)
           else if truthy (defaultOf opt key) then Inr (defaultOf opt key, w1)
           else Inr (ArrObj (nextAddr w1) [], w1\<lparr>nextAddr := Suc (nextAddr w1)\<rparr>))
      | TObject \<Rightarrow>
          (case parseObject h (sp_get sp key) w of
             (parsed, w1) \<Rightarrow> Inr (if nullish parsed then defaultOf opt key else parsed, w1))
      | _ \<Rightarrow>
          (case parseSingle h (sp_get sp key) ty
                  (case customSerializers opt key of None \<Rightarrow> None | Some c \<Rightarrow> Some (parse c))
                  (onError opt) key w of
             Inl thrown \<Rightarrow> Inl thrown
           | Inr (parsed, w1) \<Rightarrow> Inr (if nullish parsed then defaultOf opt key else parsed, w1)))"

definition validateKey :: "options \<Rightarrow> string \<Rightarrow> jsval \<Rightarrow> world \<Rightarrow> error + jsval \<times> world" where
  "validateKey opt key val w =
     (case validation opt key of
        None \<Rightarrow> Inr (val, w)
      | Some validator \<Rightarrow>
          if nullish val then Inr (val, w)
          else
            (let w1 = w\<lparr>validated := validated w @ [(key, val)]\<rparr> in
             case validator val of
               Inl e \<Rightarrow> Inl e
             | Inr ok \<Rightarrow>
                 if ok then Inr (val, w1)
                 else
                   (case onError opt of
                      Some cb \<Rightarrow>
                        (case callOnError cb (Error (''Validation failed for '' @ key)) key val w1 of
                           Inl thrown \<Rightarrow> Inl thrown
                         | Inr w2 \<Rightarrow> Inr (defaultOf opt key, w2))
                    | None \<Rightarrow> Inr (defaultOf opt key, w1))))"

fun getParamsLoop ::
  "'o host \<Rightarrow> options \<Rightarrow> searchParams \<Rightarrow> QueryparamConfig \<Rightarrow> (string \<times> jsval) list \<Rightarrow> world
    \<Rightarrow> error + (string \<times> jsval) list \<times> world" where
  "getParamsLoop h opt sp [] out w = Inr (out, w)"
| "getParamsLoop h opt sp (kt # rest) out w =
     (case decodeKey h opt sp (fst kt) (snd kt) w of
        Inl e \<Rightarrow> Inl e
      | Inr (val, w1) \<Rightarrow>
          (case validateKey opt (fst kt) val w1 of
             Inl e \<Rightarrow> Inl e
           | Inr (val', w2) \<Rightarrow> getParamsLoop h opt sp rest (setProp out (fst kt) val') w2))"

definition getParams :: "'o host \<Rightarrow> QueryparamConfig \<Rightarrow> options \<Rightarrow> world \<Rightarrow> error + snapshot \<times> world" where
  "getParams h cfg opt w =
     (case getParamsLoop h opt (getSearchParams w) cfg [] (w\<lparr>nextAddr := Suc (nextAddr w)\<rparr>) of
        Inl e \<Rightarrow> Inl e
      | Inr (out, w1) \<Rightarrow> Inr (\<lparr>addr = nextAddr w, props = out\<rparr>, w1))"

section \<open>The subscribers and the patched history\<close>

text \<open>
  \<open>setParams\<close> is the state update of instance \<open>i\<close>: React keeps the previous object
  when the updater returns it, and publishes the merged object otherwise.
  \<open>handle\<close> is the callback an instance registers; \<open>notify\<close> calls the subscribers in
  the order of \<open>subs\<close>, and an exception of one of them ends it.
\<close>

definition setParams :: "nat \<Rightarrow> snapshot \<Rightarrow> world \<Rightarrow> world" where
  "setParams i next w =
     (case hooks w i of
        None \<Rightarrow> w
      | Some hk \<Rightarrow>
          if shallowEqual (params hk) next then w
          else
            (let merged =
                   \<lparr>addr = nextAddr w,
                    props = fold (\<lambda>kv ps. setProp ps (fst kv) (snd kv)) (props next) (props (params hk))\<rparr>
             in w\<lparr>hooks := (hooks w)(i \<mapsto> hk\<lparr>params := merged\<rparr>),
                  published := published w @ [(i, merged)],
                  nextAddr := Suc (nextAddr w)\<rparr>))"

definition handle :: "'o host \<Rightarrow> nat \<Rightarrow> world \<Rightarrow> error + world" where
  "handle h i w =
     (let w0 = w\<lparr>invoked := invoked w @ [i]\<rparr> in
      case hooks w0 i of
        None \<Rightarrow> Inr w0
      | Some hk \<Rightarrow>
          (case getParams h (config hk) (opts hk) w0 of
             Inl e \<Rightarrow> Inl e
           | Inr (newParams, w1) \<Rightarrow> Inr (setParams i newParams w1)))"

fun notifyAll :: "'o host \<Rightarrow> nat list \<Rightarrow> world \<Rightarrow> error + world" where
  "notifyAll h [] w = Inr w"
| "notifyAll h (i # rest) w =
     (case handle h i w of Inl e \<Rightarrow> Inl e | Inr w1 \<Rightarrow> notifyAll h rest w1)"

definition notify :: "'o host \<Rightarrow> world \<Rightarrow> error + world" where
  "notify h w = notifyAll h (subs w) w"

definition patchHistory :: "world \<Rightarrow> world" where
  "patchHistory w =
     (if isHistoryPatched w then w
      else w\<lparr>originalPushState := Some (pushState w),
             originalReplaceState := Some (replaceState w),
             patchCount := patchCount w + 1,
             pushState := Wrapper Push,
             replaceState := Wrapper Replace,
             isHistoryPatched := True\<rparr>)"

definition unpatchHistory :: "world \<Rightarrow> world" where
  "unpatchHistory w =
     (if \<not> isHistoryPatched w then w
      else
        (let w1 = w\<lparr>patchCount := patchCount w - 1\<rparr> in
         case (originalPushState w1, originalReplaceState w1) of
           (Some p, Some r) \<Rightarrow>
             if patchCount w1 \<le> 0
             then w1\<lparr>pushState := p, replaceState := r,
                     originalPushState := None, originalReplaceState := None,
                     isHistoryPatched := False, patchCount := 0\<rparr>
             else w1
         | _ \<Rightarrow> w1))"

text \<open>
  The browser's own \<open>pushState\<close> and \<open>replaceState\<close> make \<open>u\<close> the address of the page;
  \<open>u\<close> starts with the path, so it is the whole of the new address. A call of the
  function stored in \<open>history.pushState\<close> or \<open>history.replaceState\<close> is \<open>callHistory\<close>:
  the wrapper of \<open>patchHistory\<close> calls the function that the module variable holds at
  that moment, then \<open>notify\<close>. Calling \<open>null\<close> is a \<open>TypeError\<close>; a wrapper that
  finds a wrapper in the variable calls itself without end, which the engine ends with a
  \<open>RangeError\<close>.
\<close>

definition nativeHistory :: "HistoryMode \<Rightarrow> string \<Rightarrow> world \<Rightarrow> world" where
  "nativeHistory m u w = w\<lparr>url := u, commits := commits w @ [(m, u)]\<rparr>"

definition callHistory :: "'o host \<Rightarrow> histfn \<Rightarrow> string \<Rightarrow> world \<Rightarrow> error + world" where
  "callHistory h f u w =
     (case f of
        Native m \<Rightarrow> Inr (nativeHistory m u w)
      | Wrapper m \<Rightarrow>
          (case (case m of Push \<Rightarrow> originalPushState w | Replace \<Rightarrow> originalReplaceState w) of
             None \<Rightarrow> Inl (TypeError ''Cannot read properties of null'')
           | Some (Native m') \<Rightarrow> notify h (nativeHistory m' u w)
           | Some (Wrapper m') \<Rightarrow> Inl (RangeError ''Maximum call stack size exceeded'')))"

definition applyUrl :: "'o host \<Rightarrow> string \<Rightarrow> HistoryMode \<Rightarrow> world \<Rightarrow> error + world" where
  "applyUrl h newUrl mode w =
     (case callHistory h (case mode of Push \<Rightarrow> pushState w | Replace \<Rightarrow> replaceState w) newUrl w of
        Inl e \<Rightarrow> Inl e
      | Inr w1 \<Rightarrow> notify h w1)"

section \<open>Writing the address: syncParams\<close>

text \<open>One turn of the loop of \<open>syncParams\<close> is \<open>patchKey\<close>.\<close>

definition patchKey ::
  "'o host \<Rightarrow> QueryparamConfig \<Rightarrow> options \<Rightarrow> string \<Rightarrow> jsval \<Rightarrow> searchParams \<Rightarrow> world
    \<Rightarrow> error + searchParams \<times> world" where
  "patchKey h cfg opt key nextVal sp w =
     (case map_of cfg key of
        Some TStringArr \<Rightarrow>
          (let sp1 = sp_delete sp key in
           case nextVal of
             ArrObj a xs \<Rightarrow>
               if isStringArray nextVal \<and> length xs > 0
               then Inr (fold (\<lambda>x acc. sp_append acc key (unJStr x)) xs sp1, w)
               else Inr (sp1, w)
           | _ \<Rightarrow> Inr (sp1, w))
      | Some TObject \<Rightarrow>
          (case serializeObject h nextVal of
             Some s \<Rightarrow> Inr (sp_set sp key s, w)
           | None \<Rightarrow> Inr (sp_delete sp key, w))
      | ty \<Rightarrow>
          (case serializeSingle h nextVal ty
                  (case customSerializers opt key of None \<Rightarrow> None | Some c \<Rightarrow> Some (serialize c))
                  (onError opt) key w of
             Inl thrown \<Rightarrow> Inl thrown
           | Inr (Some s, w1) \<Rightarrow> Inr (sp_set sp key s, w1)
           | Inr (None, w1) \<Rightarrow> Inr (sp_delete sp key, w1)))"

fun patchLoop ::
  "'o host \<Rightarrow> QueryparamConfig \<Rightarrow> options \<Rightarrow> (string \<times> jsval) list \<Rightarrow> searchParams \<Rightarrow> world
    \<Rightarrow> error + searchParams \<times> world" where
  "patchLoop h cfg opt [] sp w = Inr (sp, w)"
| "patchLoop h cfg opt (kv # rest) sp w =
     (case patchKey h cfg opt (fst kv) (snd kv) sp w of
        Inl e \<Rightarrow> Inl e
      | Inr (sp1, w1) \<Rightarrow> patchLoop h cfg opt rest sp1 w1)"

definition queryString :: "('o::linorder) host \<Rightarrow> options \<Rightarrow> searchParams \<Rightarrow> string" where
  "queryString h opt sp = (if sortKeys opt then toSortedQueryString h sp else sp_toString sp)"

definition syncParams ::
  "('o::linorder) host \<Rightarrow> QueryparamConfig \<Rightarrow> options \<Rightarrow> (string \<times> jsval) list \<Rightarrow> HistoryMode option
    \<Rightarrow> world \<Rightarrow> error + world" where
  "syncParams h cfg opt patch mode w =
     (let sp = getSearchParams w;
          beforeQs = queryString h opt sp in
      case patchLoop h cfg opt patch sp w of
        Inl e \<Rightarrow> Inl e
      | Inr (sp1, w1) \<Rightarrow>
          (let afterQs = queryString h opt sp1 in
           if afterQs \<noteq> beforeQs
           then applyUrl h
                  (location_pathname (url w1) @ (if afterQs \<noteq> [] then CHR ''?'' # afterQs else [])
                     @ location_hash (url w1))
                  (case mode of None \<Rightarrow> defaultHistory opt | Some m \<Rightarrow> m) w1
           else Inr w1))"

section \<open>Mounting and unmounting\<close>

text \<open>
  \<open>mount\<close> is the first render of the hook in a component instance \<open>i\<close> followed by
  its effect: the initial state is \<open>getParams()\<close>; the effect calls \<open>patchHistory\<close> and
  registers \<open>handle\<close> for \<open>popstate\<close> and with \<open>pushStateEventManager\<close>. \<open>unmount\<close>
  is the cleanup of the effect. An instance is mounted under a name that no mounted
  instance has.
\<close>

definition mount ::
  "'o host \<Rightarrow> nat \<Rightarrow> QueryparamConfig \<Rightarrow> options \<Rightarrow> world \<Rightarrow> error + world" where
  "mount h i cfg opt w =
     (case getParams h cfg opt w of
        Inl e \<Rightarrow> Inl e
      | Inr (p, w1) \<Rightarrow>
          (let w2 = w1\<lparr>hooks := (hooks w1)(i \<mapsto> \<lparr>config = cfg, opts = opt, params = p\<rparr>),
                       published := published w1 @ [(i, p)]\<rparr>;
               w3 = patchHistory w2
           in Inr (w3\<lparr>popstateListeners := popstateListeners w3 @ [i], subs := subs w3 @ [i]\<rparr>)))"

definition unmount :: "nat \<Rightarrow> world \<Rightarrow> world" where
  "unmount i w =
     unpatchHistory
       (w\<lparr>popstateListeners := filter (\<lambda>j. j \<noteq> i) (popstateListeners w),
          subs := filter (\<lambda>j. j \<noteq> i) (subs w),
          hooks := (hooks w)(i := None)\<rparr>)"

text \<open>A page as the browser loads it at address \<open>u\<close>: nothing is patched, nothing is
  mounted.\<close>

definition freshPage :: "string \<Rightarrow> world" where
  "freshPage u =
     \<lparr>url = u, pushState = Native Push, replaceState = Native Replace,
      isHistoryPatched = False, originalPushState = None, originalReplaceState = None,
      patchCount = 0, subs = [], popstateListeners = [], hooks = Map.empty,
      commits = [], invoked = [], published = [], reported = [], validated = [],
      nextAddr = 0\<rparr>"

section \<open>Facts about the query string\<close>




















section \<open>A sample platform and sample declarations\<close>

text \<open>
  The platform functions are parameters of every definition above. The examples below
  are evaluated on \<open>samplePlatform\<close>, which agrees with the JavaScript platform on the
  arguments the examples give it (\<open>Number('1')\<close> is \<open>1\<close>, \<open>String(-1)\<close> is \<open>-1\<close>,
  \<open>JSON.parse('1')\<close> is \<open>1\<close>, the epoch is \<open>1970-01-01T00:00:00.000Z\<close>, and so on) and
  orders keys as strings of ASCII letters are ordered.
\<close>

definition samplePlatform :: "string host" where
  "samplePlatform =
     \<lparr>toNumber = (\<lambda>s. if s = ''1'' then Fin 1 else if s = ''-1'' then Fin (- 1) else NaN),
      numToString = (\<lambda>n. if n = Fin 1 then ''1'' else if n = Fin (- 1) then ''-1'' else ''NaN''),
      dateParse = (\<lambda>s. if s = ''1970-01-01T00:00:00.000Z'' then Some 0 else None),
      toISOString = (\<lambda>t. ''1970-01-01T00:00:00.000Z''),
      jsonParse = (\<lambda>s. if s = ''1'' then Inr (JNum (Fin 1))
                        else if s = ''{}'' then Inr (JObj [])
                        else Inl (SyntaxError ''Unexpected token'')),
      jsonStringify = (\<lambda>v. case v of Undefined \<Rightarrow> Inr None
                        | Num n \<Rightarrow> Inr (Some ''1'')
                        | BigInt n \<Rightarrow> Inl (TypeError ''Do not know how to serialize a BigInt'')
                        | _ \<Rightarrow> Inr (Some ''{}'')),
      decodeURIComponent = (\<lambda>s. if CHR ''%'' \<in> set s then Inl (URIError ''URI malformed'') else Inr s),
      encodeURIComponent = (\<lambda>s. Inr s),
      localeKey = (\<lambda>s. s)\<rparr>"

text \<open>The declaration \<open>{page: 'number'}\<close> with the options
  \<open>{defaultValues: {page: 1}, onError}\<close>, where \<open>onError\<close> is a callback that
  returns (\<open>logger\<close>).\<close>

definition pageCfg :: QueryparamConfig where
  "pageCfg = [(''page'', TNumber)]"

definition logger :: errorCallback where
  "logger e k v = None"

definition pageOpts :: options where
  "pageOpts = defaultOptions\<lparr>defaultValues := [''page'' \<mapsto> Num (Fin 1)], onError := Some logger\<rparr>"

text \<open>Two instances are mounted on a page just loaded at \<open>/list\<close>, then the first is
  unmounted.\<close>

definition twoMountsOneUnmount :: "error + world" where
  "twoMountsOneUnmount =
     (case mount samplePlatform 1 pageCfg pageOpts (freshPage ''/list'') of
        Inl e \<Rightarrow> Inl e
      | Inr w1 \<Rightarrow>
          (case mount samplePlatform 2 pageCfg pageOpts w1 of
             Inl e \<Rightarrow> Inl e
           | Inr w2 \<Rightarrow> Inr (unmount 1 w2)))"

section \<open>The reference count of the interception\<close>

text \<open>
  Claim C1 (shared interception as a reference count). The claim says that after two
  mounts and one unmount the interception is still installed, so that the remaining
  instance is notified of \<open>pushState\<close> and \<open>replaceState\<close>. The code does otherwise:
  \<open>patchHistory\<close> returns at once when the history is already patched, so the second
  mount does not count, and the first unmount brings \<open>patchCount\<close> to 0 and restores
  the browser's functions. The theorem evaluates the scenario: instance 2 is still
  subscribed, yet \<open>history.pushState\<close> and \<open>history.replaceState\<close> are the browser's
  own again, and a \<open>pushState\<close> by other code of the page changes the address without
  any call of the callback of instance 2.
\<close>

theorem C1_first_unmount_removes_interception:
  "(case twoMountsOneUnmount of
      Inl e \<Rightarrow> False
    | Inr w \<Rightarrow>
        subs w = [2] \<and> pushState w = Native Push \<and> replaceState w = Native Replace
        \<and> isHistoryPatched w = False \<and> patchCount w = 0
        \<and> (case callHistory samplePlatform (pushState w) ''/list?page=2'' w of
              Inl e \<Rightarrow> False
            | Inr w' \<Rightarrow> url w' = ''/list?page=2'' \<and> invoked w' = []))"
  by code_simp

section \<open>Defaults on mount\<close>

text \<open>
  Claim C2 (default materialization on mount). The claim says that mounting writes a
  configured default that the address lacks into the address, with one commit in
  replace mode. The code does not: the effect of the hook patches the history and
  subscribes, and never commits. The theorem evaluates the claim's own example, the
  declaration \<open>{page: 'number'}\<close> with default \<open>{page: 1}\<close> at the address \<open>/list\<close>:
  after mount the published state is \<open>{page: 1}\<close>, but no commit was made and the
  address is still \<open>/list\<close>, with an empty query string.
\<close>

theorem C2_mount_does_not_write_defaults:
  "(case mount samplePlatform 1 pageCfg pageOpts (freshPage ''/list'') of
      Inl e \<Rightarrow> False
    | Inr w \<Rightarrow>
        url w = ''/list'' \<and> commits w = [] \<and> getSearchParams w = []
        \<and> map_option (\<lambda>hk. props (params hk)) (hooks w 1) = Some [(''page'', Num (Fin 1))]
        \<and> map (\<lambda>p. props (snd p)) (published w) = [[(''page'', Num (Fin 1))]])"
  by code_simp

section \<open>The scalar codec\<close>

text \<open>A value conforms to a scalar tag when it has the type that \<open>QueryparamTypeMap\<close>
  gives the tag, a number being finite.\<close>

fun conforms :: "QueryParamType \<Rightarrow> jsval \<Rightarrow> bool" where
  "conforms TString (Str s) = True"
| "conforms TNumber (Num n) = isFinite n"
| "conforms TBoolean (Bool b) = True"
| "conforms TDate (DateObj a t) = True"
| "conforms ty v = False"

definition isSingleType :: "QueryParamType \<Rightarrow> bool" where
  "isSingleType ty = (ty = TString \<or> ty = TNumber \<or> ty = TBoolean \<or> ty = TDate)"

text \<open>\<open>decode(encode(value))\<close> with the built-in codec of a scalar tag.\<close>

definition roundTrip ::
  "'o host \<Rightarrow> QueryParamType \<Rightarrow> jsval \<Rightarrow> errorCallback option \<Rightarrow> string \<Rightarrow> world
    \<Rightarrow> error + jsval option" where
  "roundTrip h ty v onErr key w =
     (case serializeSingle h v (Some ty) None onErr key w of
        Inl e \<Rightarrow> Inl e
      | Inr (None, w1) \<Rightarrow> Inr None
      | Inr (Some s, w1) \<Rightarrow>
          (case parseSingle h (Some s) ty None onErr key w1 of
             Inl e \<Rightarrow> Inl e
           | Inr (r, w2) \<Rightarrow> Inr (Some r)))"

lemma sp_delete_absent: "key \<notin> fst ` set (sp_delete sp key)"
  by (auto simp: sp_delete_def)

lemma serializeSingle_nonconforming:
  "isSingleType ty \<Longrightarrow> \<not> conforms ty nextVal \<Longrightarrow>
   serializeSingle h nextVal (Some ty) None onErr key w = Inr (None, w)"
  by (cases ty; cases nextVal) (auto simp: serializeSingle_def isSingleType_def)

text \<open>
  Claim C4 (a value that does not conform to its tag), as the code has it: for a key of
  a scalar tag with no custom serializer, a new value that does not conform is encoded
  as absent, so the key is deleted from the query string; the state is unchanged, so
  \<open>onError\<close> is not called. (The claim says the failure is reported.)
\<close>

theorem C4_nonconforming_value_omitted_without_report:
  assumes "map_of cfg key = Some ty" and "isSingleType ty"
    and "customSerializers opt key = None" and "\<not> conforms ty nextVal"
  shows "patchKey h cfg opt key nextVal sp w = Inr (sp_delete sp key, w)
         \<and> key \<notin> fst ` set (sp_delete sp key)"
proof -
  have "serializeSingle h nextVal (Some ty) None (onError opt) key w = Inr (None, w)"
    using assms(2,4) by (rule serializeSingle_nonconforming)
  then have "patchKey h cfg opt key nextVal sp w = Inr (sp_delete sp key, w)"
    using assms(1,2,3) by (cases ty) (simp_all add: patchKey_def isSingleType_def)
  then show ?thesis by (simp add: sp_delete_absent)
qed

theorem C4_witness_not_a_number:
  "map_of pageCfg ''page'' = Some TNumber \<and> \<not> conforms TNumber (Num NaN)
   \<and> patchKey samplePlatform pageCfg pageOpts ''page'' (Num NaN) [(''page'', ''1'')]
        (freshPage ''/list?page=1'')
      = Inr ([], freshPage ''/list?page=1'')"
  using C4_nonconforming_value_omitted_without_report
    [of pageCfg "''page''" TNumber pageOpts "Num NaN" samplePlatform "[(''page'', ''1'')]"
       "freshPage ''/list?page=1''"]
  by (simp add: pageCfg_def pageOpts_def defaultOptions_def isSingleType_def sp_delete_def)

text \<open>
  Claim C4 as stated fails: the patch \<open>{page: 'abc'}\<close> for the declaration
  \<open>{page: 'number'}\<close>, with \<open>onError\<close> configured, at the address \<open>/list?page=1\<close>. The
  key is removed from the address and \<open>onError\<close> is never called.
\<close>

theorem C4_counterexample_no_report:
  "(case syncParams samplePlatform pageCfg pageOpts [(''page'', Str ''abc'')] None
           (freshPage ''/list?page=1'') of
      Inl e \<Rightarrow> False
    | Inr w \<Rightarrow>
        url w = ''/list'' \<and> reported w = []
        \<and> (case onError pageOpts of None \<Rightarrow> False | Some cb \<Rightarrow> True))"
  by code_simp

text \<open>
  Claim C8 (round trip). For a string, a finite number, a boolean and a valid date,
  decoding the encoding gives the value back (for a date: a new \<open>Date\<close> object with
  the same time value); a number that is not finite is not encoded at all. The two
  hypotheses are the platform's own round trips: \<open>Number(String(r))\<close> is \<open>r\<close>, and
  parsing \<open>toISOString()\<close> gives the time value back.
\<close>

theorem C8_round_trip:
  assumes "toNumber h (numToString h (Fin r)) = Fin r"
    and "dateParse h (toISOString h t) = Some t"
  shows "roundTrip h TString (Str s) onErr key w = Inr (Some (Str s))
       \<and> roundTrip h TNumber (Num (Fin r)) onErr key w = Inr (Some (Num (Fin r)))
       \<and> roundTrip h TBoolean (Bool b) onErr key w = Inr (Some (Bool b))
       \<and> roundTrip h TDate (DateObj a (Some t)) onErr key w = Inr (Some (DateObj (nextAddr w) (Some t)))
       \<and> roundTrip h TNumber (Num NaN) onErr key w = Inr None
       \<and> roundTrip h TNumber (Num PosInf) onErr key w = Inr None
       \<and> roundTrip h TNumber (Num NegInf) onErr key w = Inr None
       \<and> serializeSingle h (Num NaN) (Some TNumber) None onErr key w = Inr (None, w)"
proof -
  have str: "roundTrip h TString (Str s) onErr key w = Inr (Some (Str s))"
    by (simp add: roundTrip_def serializeSingle_def parseSingle_def)
  have num: "roundTrip h TNumber (Num (Fin r)) onErr key w = Inr (Some (Num (Fin r)))"
    using assms(1) by (simp add: roundTrip_def serializeSingle_def parseSingle_def)
  have bool: "roundTrip h TBoolean (Bool b) onErr key w = Inr (Some (Bool b))"
    by (cases b) (simp_all add: roundTrip_def serializeSingle_def parseSingle_def)
  have date: "roundTrip h TDate (DateObj a (Some t)) onErr key w = Inr (Some (DateObj (nextAddr w) (Some t)))"
    using assms(2) by (simp add: roundTrip_def serializeSingle_def parseSingle_def)
  have inf: "roundTrip h TNumber (Num NaN) onErr key w = Inr None"
    "roundTrip h TNumber (Num PosInf) onErr key w = Inr None"
    "roundTrip h TNumber (Num NegInf) onErr key w = Inr None"
    "serializeSingle h (Num NaN) (Some TNumber) None onErr key w = Inr (None, w)"
    by (simp_all add: roundTrip_def serializeSingle_def)
  from str num bool date inf show ?thesis by simp
qed

theorem C8_witness_one_and_epoch:
  "toNumber samplePlatform (numToString samplePlatform (Fin 1)) = Fin 1
   \<and> dateParse samplePlatform (toISOString samplePlatform 0) = Some 0
   \<and> roundTrip samplePlatform TNumber (Num (Fin 1)) (Some logger) ''page'' (freshPage ''/'')
       = Inr (Some (Num (Fin 1)))
   \<and> roundTrip samplePlatform TDate (DateObj 7 (Some 0)) (Some logger) ''d'' (freshPage ''/'')
       = Inr (Some (DateObj 0 (Some 0)))"
proof -
  have n: "toNumber samplePlatform (numToString samplePlatform (Fin 1)) = Fin 1"
    by (simp add: samplePlatform_def)
  have d: "dateParse samplePlatform (toISOString samplePlatform 0) = Some 0"
    by (simp add: samplePlatform_def)
  show ?thesis
    using n d C8_round_trip [OF n d, of "[]" "Some logger" "''page''" "freshPage ''/''" True 7]
      C8_round_trip [OF n d, of "[]" "Some logger" "''d''" "freshPage ''/''" True 7]
    by (simp add: freshPage_def)
qed
section \<open>The codec of opaque objects\<close>

text \<open>
  The exceptions of the object codec are swallowed. When \<open>decodeURIComponent\<close> or
  \<open>JSON.parse\<close> throws, \<open>parseObject\<close> returns \<open>undefined\<close> and leaves the state as it
  is; when \<open>JSON.stringify\<close> or \<open>encodeURIComponent\<close> throws, \<open>serializeObject\<close>
  returns \<open>undefined\<close>. Reading an object key always returns and never adds a call of
  \<open>onError\<close>, and patching an object key always returns and never changes the state,
  whatever the outcome. The scalar codec is louder: a string that is no finite number,
  or no valid date, is reported through a configured \<open>onError\<close>.
\<close>

lemma objectCodec_exceptions_are_silent:
  "(decodeURIComponent h s1 = Inl e1 \<longrightarrow> parseObject h (Some s1) w = (Undefined, w))
   \<and> (decodeURIComponent h s2 = Inr d \<and> jsonParse h d = Inl e2
        \<longrightarrow> parseObject h (Some s2) w = (Undefined, w))
   \<and> (jsonStringify h v1 = Inl e3 \<longrightarrow> serializeObject h v1 = None)
   \<and> (jsonStringify h v2 = Inr js
        \<and> encodeURIComponent h (case js of None \<Rightarrow> ''undefined'' | Some t \<Rightarrow> t) = Inl e4
        \<longrightarrow> serializeObject h v2 = None)
   \<and> (\<exists>r w'. decodeKey h opt sp key TObject w = Inr (r, w') \<and> reported w' = reported w)
   \<and> (map_of cfg key = Some TObject \<longrightarrow> (\<exists>sp'. patchKey h cfg opt key v sp w = Inr (sp', w)))
   \<and> (\<not> isFinite (toNumber h s3) \<and> key \<noteq> [] \<and> cb (Error (''Invalid number: '' @ s3)) key (Str s3) = None \<longrightarrow>
        parseSingle h (Some s3) TNumber None (Some cb) key w
          = Inr (Undefined, w\<lparr>reported := reported w @ [(Error (''Invalid number: '' @ s3), key, Str s3)]\<rparr>))
   \<and> (dateParse h s4 = None \<and> key \<noteq> [] \<and> cb (Error (''Invalid date: '' @ s4)) key (Str s4) = None \<longrightarrow>
        parseSingle h (Some s4) TDate None (Some cb) key w
          = Inr (Undefined, w\<lparr>reported := reported w @ [(Error (''Invalid date: '' @ s4), key, Str s4)]\<rparr>))"
proof -
  have dk: "\<exists>r w'. decodeKey h opt sp key TObject w = Inr (r, w') \<and> reported w' = reported w"
    by (auto simp: decodeKey_def parseObject_def split: option.splits sum.splits prod.splits)
  have pk: "map_of cfg key = Some TObject \<longrightarrow> (\<exists>sp'. patchKey h cfg opt key v sp w = Inr (sp', w))"
    by (auto simp: patchKey_def split: option.splits)
  show ?thesis
    using dk pk
    by (simp add: parseObject_def serializeObject_def parseSingle_def callOnError_def)
qed

text \<open>The declarations \<open>{since: 'date'}\<close> and \<open>{filters: 'object'}\<close>.\<close>

definition dateCfg :: QueryparamConfig where
  "dateCfg = [(''since'', TDate)]"

definition objectCfg :: QueryparamConfig where
  "objectCfg = [(''filters'', TObject)]"

text \<open>
  Claim C7 (opaque objects fail silently: a value that cannot be encoded yields an
  absent key). The code misses one case. \<open>serializeObject\<close> returns \<open>undefined\<close> only
  when \<open>JSON.stringify\<close> or \<open>encodeURIComponent\<close> throws. For a value that has no
  JSON text (\<open>undefined\<close>, a function, a symbol) \<open>JSON.stringify\<close> does not throw: it
  returns \<open>undefined\<close>, and \<open>encodeURIComponent(undefined)\<close> is the string
  \<open>undefined\<close>. The theorem evaluates the patch \<open>{filters: undefined}\<close> for the
  declaration \<open>{filters: 'object'}\<close> at the address \<open>/?filters=%7B%7D\<close>: the key is not
  removed, the address becomes \<open>/?filters=undefined\<close>, nothing is reported, and the
  next read cannot decode what was written. For a scalar key the same patch value
  removes the key: \<open>{page: undefined}\<close> at \<open>/?page=1\<close> gives \<open>/\<close>.
\<close>

theorem C7_value_without_json_text_is_written:
  "serializeObject samplePlatform Undefined = Some ''undefined''
   \<and> (case syncParams samplePlatform objectCfg pageOpts [(''filters'', Undefined)] None
             (freshPage ''/?filters=%7B%7D'') of
         Inl e \<Rightarrow> False
       | Inr w \<Rightarrow>
           url w = ''/?filters=undefined'' \<and> commits w = [(Replace, ''/?filters=undefined'')]
           \<and> reported w = []
           \<and> (case getParams samplePlatform objectCfg pageOpts w of
                 Inl e \<Rightarrow> False
               | Inr (out, w') \<Rightarrow> props out = [(''filters'', Undefined)] \<and> reported w' = []))
   \<and> (case syncParams samplePlatform pageCfg pageOpts [(''page'', Undefined)] None
             (freshPage ''/?page=1'') of
         Inl e \<Rightarrow> False
       | Inr w \<Rightarrow> url w = ''/'' \<and> reported w = [])"
  by code_simp

section \<open>What a read leaves unchanged\<close>

text \<open>Reading the address allocates objects, calls \<open>onError\<close> and calls validators;
  when it returns, it has changed nothing else of the state.\<close>

definition readOnly :: "world \<Rightarrow> world \<Rightarrow> bool" where
  "readOnly w w' =
     (w' = w\<lparr>nextAddr := nextAddr w', reported := reported w', validated := validated w'\<rparr>
      \<and> nextAddr w \<le> nextAddr w')"

lemma readOnly_refl: "readOnly w w"
  by (simp add: readOnly_def)

lemma readOnly_trans: "readOnly a b \<Longrightarrow> readOnly b c \<Longrightarrow> readOnly a c"
  unfolding readOnly_def
  by (cases a; cases b; cases c) auto

lemma readOnly_fields:
  assumes "readOnly w w'"
  shows "url w' = url w" "pushState w' = pushState w" "replaceState w' = replaceState w"
    "isHistoryPatched w' = isHistoryPatched w" "originalPushState w' = originalPushState w"
    "originalReplaceState w' = originalReplaceState w" "patchCount w' = patchCount w"
    "subs w' = subs w" "popstateListeners w' = popstateListeners w" "hooks w' = hooks w"
    "commits w' = commits w" "invoked w' = invoked w" "published w' = published w"
    "nextAddr w \<le> nextAddr w'"
proof -
  from assms have e: "w' = w\<lparr>nextAddr := nextAddr w', reported := reported w', validated := validated w'\<rparr>"
    and le: "nextAddr w \<le> nextAddr w'" by (simp_all add: readOnly_def)
  show "nextAddr w \<le> nextAddr w'" by (rule le)
  show "url w' = url w" by (subst e) simp
  show "pushState w' = pushState w" by (subst e) simp
  show "replaceState w' = replaceState w" by (subst e) simp
  show "isHistoryPatched w' = isHistoryPatched w" by (subst e) simp
  show "originalPushState w' = originalPushState w" by (subst e) simp
  show "originalReplaceState w' = originalReplaceState w" by (subst e) simp
  show "patchCount w' = patchCount w" by (subst e) simp
  show "subs w' = subs w" by (subst e) simp
  show "popstateListeners w' = popstateListeners w" by (subst e) simp
  show "hooks w' = hooks w" by (subst e) simp
  show "commits w' = commits w" by (subst e) simp
  show "invoked w' = invoked w" by (subst e) simp
  show "published w' = published w" by (subst e) simp
qed

lemma parseSingle_readOnly: "parseSingle h raw ty cp onErr key w = Inr (v, w') \<Longrightarrow> readOnly w w'"
  by (auto simp: parseSingle_def readOnly_def callOnError_def Let_def
      split: option.splits sum.splits QueryParamType.splits if_splits)


lemma parseObject_readOnly: "parseObject h raw w = (v, w') \<Longrightarrow> readOnly w w'"
  by (auto simp: parseObject_def readOnly_def split: option.splits sum.splits)

lemma decodeKey_readOnly:
  assumes "decodeKey h opt sp key ty w = Inr (v, w')"
  shows "readOnly w w'"
proof (cases "ty = TStringArr")
  case True
  with assms show ?thesis
    by (auto simp: decodeKey_def readOnly_def Let_def split: if_splits)
next
  case notArr: False
  show ?thesis
  proof (cases "ty = TObject")
    case True
    with assms obtain p where "parseObject h (sp_get sp key) w = (p, w')"
      by (auto simp: decodeKey_def split: prod.splits)
    then show ?thesis by (rule parseObject_readOnly)
  next
    case False
    with notArr assms obtain p cp where "parseSingle h (sp_get sp key) ty cp (onError opt) key w = Inr (p, w')"
      by (cases ty) (auto simp: decodeKey_def split: prod.splits sum.splits)
    then show ?thesis by (rule parseSingle_readOnly)
  qed
qed

lemma validateKey_readOnly: "validateKey opt key val w = Inr (v, w') \<Longrightarrow> readOnly w w'"
  by (auto simp: validateKey_def readOnly_def callOnError_def Let_def
      split: option.splits sum.splits if_splits)

lemma getParamsLoop_readOnly:
  "getParamsLoop h opt sp cfg out w = Inr (out', w') \<Longrightarrow> readOnly w w'"
proof (induction cfg arbitrary: out w)
  case Nil
  then show ?case by (simp add: readOnly_refl)
next
  case (Cons kt rest)
  from Cons.prems obtain val w1 val' w2 where d: "decodeKey h opt sp (fst kt) (snd kt) w = Inr (val, w1)"
    and v: "validateKey opt (fst kt) val w1 = Inr (val', w2)"
    and l: "getParamsLoop h opt sp rest (setProp out (fst kt) val') w2 = Inr (out', w')"
    by (auto split: sum.splits)
  from decodeKey_readOnly [OF d] validateKey_readOnly [OF v] Cons.IH [OF l]
  show ?case by (blast intro: readOnly_trans)
qed

lemma getParams_readOnly:
  assumes "getParams h cfg opt w = Inr (out, w')"
  shows "readOnly w w'"
proof -
  from assms obtain ps where
    "getParamsLoop h opt (getSearchParams w) cfg [] (w\<lparr>nextAddr := Suc (nextAddr w)\<rparr>) = Inr (ps, w')"
    by (auto simp: getParams_def split: sum.splits)
  then have "readOnly (w\<lparr>nextAddr := Suc (nextAddr w)\<rparr>) w'" by (rule getParamsLoop_readOnly)
  moreover have "readOnly w (w\<lparr>nextAddr := Suc (nextAddr w)\<rparr>)" by (simp add: readOnly_def)
  ultimately show ?thesis by (blast intro: readOnly_trans)
qed

section \<open>Validation\<close>

text \<open>
  \<open>validatorsReturn opt\<close>: no validator of the options throws. \<open>callbackReturns\<close>: the
  callback, if there is one, never throws; \<open>onErrorReturns opt\<close> says so of the
  \<open>onError\<close> of the options. \<open>validatedBy\<close> lists the validator calls of one read of
  the address, in order. \<open>present\<close>: the value that \<open>decodeKey\<close> ends with (decoded,
  or else the default) is neither \<open>undefined\<close> nor \<open>null\<close>; this does not depend on
  the addresses the read allocates.
\<close>

definition validatorsReturn :: "options \<Rightarrow> bool" where
  "validatorsReturn opt = (\<forall>k f v. validation opt k = Some f \<longrightarrow> (\<exists>b. f v = Inr b))"

definition callbackReturns :: "errorCallback option \<Rightarrow> bool" where
  "callbackReturns onErr = (\<forall>cb e k v. onErr = Some cb \<longrightarrow> cb e k v = None)"

definition onErrorReturns :: "options \<Rightarrow> bool" where
  "onErrorReturns opt = callbackReturns (onError opt)"

definition validatedBy :: "'o host \<Rightarrow> QueryparamConfig \<Rightarrow> options \<Rightarrow> world \<Rightarrow> (string \<times> jsval) list" where
  "validatedBy h cfg opt w =
     (case getParams h cfg opt w of
        Inl e \<Rightarrow> []
      | Inr (out, w') \<Rightarrow> drop (length (validated w)) (validated w'))"

definition present :: "'o host \<Rightarrow> options \<Rightarrow> searchParams \<Rightarrow> string \<times> QueryParamType \<Rightarrow> bool" where
  "present h opt sp kt =
     (case decodeKey h opt sp (fst kt) (snd kt) (freshPage []) of
        Inl e \<Rightarrow> False
      | Inr (v, w) \<Rightarrow> \<not> nullish v)"

lemma callOnError_returns:
  "callbackReturns (Some cb) \<Longrightarrow> callOnError cb e k v w = Inr (w\<lparr>reported := reported w @ [(e, k, v)]\<rparr>)"
  by (simp add: callbackReturns_def callOnError_def)

lemma callOnError_world:
  "callOnError cb e k v w = Inr w1 \<Longrightarrow> \<exists>w2. callOnError cb e k v w0 = Inr w2"
  by (auto simp: callOnError_def split: option.splits)

lemma nullish_reify: "nullish (reify a j) = nullish (reify b j)"
  by (cases j) simp_all

lemma parseSingle_catch:
  "parseSingle h (Some s) ty cp onErr key w = Inr (v, w1) \<Longrightarrow>
   (case cp of
      Some p \<Rightarrow> (case p s of Inl e \<Rightarrow> True | Inr r \<Rightarrow> False)
    | None \<Rightarrow>
        (case ty of
           TNumber \<Rightarrow> \<not> isFinite (toNumber h s)
         | TBoolean \<Rightarrow> s \<notin> set [''true'', ''1'', ''false'', ''0'']
         | TDate \<Rightarrow> dateParse h s = None
         | _ \<Rightarrow> False)) \<Longrightarrow>
   v = Undefined \<and> (\<exists>v0 w2. parseSingle h (Some s) ty cp onErr key w0 = Inr (v0, w2) \<and> v0 = Undefined)"
  by (cases cp; cases ty; cases onErr; cases "key = []")
     (auto simp: parseSingle_def callOnError_def Let_def split: sum.splits option.splits if_splits)

lemma parseSingle_nullish:
  assumes "parseSingle h raw ty cp onErr key w = Inr (v, w1)"
  shows "\<exists>v0 w2. parseSingle h raw ty cp onErr key w0 = Inr (v0, w2) \<and> nullish v0 = nullish v"
proof (cases raw)
  case None
  with assms show ?thesis by (simp add: parseSingle_def)
next
  case (Some s)
  let ?failed =
    "(case cp of
      Some p \<Rightarrow> (case p s of Inl e \<Rightarrow> True | Inr r \<Rightarrow> False)
    | None \<Rightarrow>
        (case ty of
           TNumber \<Rightarrow> \<not> isFinite (toNumber h s)
         | TBoolean \<Rightarrow> s \<notin> set [''true'', ''1'', ''false'', ''0'']
         | TDate \<Rightarrow> dateParse h s = None
         | _ \<Rightarrow> False))"
  show ?thesis
  proof (cases ?failed)
    case True
    from parseSingle_catch [OF assms [unfolded Some] True, of w0] Some show ?thesis by auto
  next
    case False
    with assms Some show ?thesis
      by (cases cp; cases ty)
         (auto simp: parseSingle_def Let_def split: sum.splits option.splits if_splits)
  qed
qed

lemma parseObject_nullish:
  "nullish (fst (parseObject h raw w)) = nullish (fst (parseObject h raw w0))"
proof (cases raw)
  case None
  then show ?thesis by (simp add: parseObject_def)
next
  case (Some s)
  show ?thesis
  proof (cases "decodeURIComponent h s")
    case (Inl e)
    with Some show ?thesis by (simp add: parseObject_def)
  next
    case (Inr d)
    with Some show ?thesis
      by (cases "jsonParse h d") (simp_all add: parseObject_def nullish_reify [of "nextAddr w" _ "nextAddr w0"])
  qed
qed

lemma decodeKey_nullish:
  assumes "decodeKey h opt sp key ty w = Inr (v, w1)"
  shows "\<exists>v0 w2. decodeKey h opt sp key ty w0 = Inr (v0, w2) \<and> nullish v0 = nullish v"
proof (cases "ty = TStringArr")
  case True
  with assms show ?thesis by (auto simp: decodeKey_def Let_def split: if_splits)
next
  case notArr: False
  show ?thesis
  proof (cases "ty = TObject")
    case True
    with assms show ?thesis
      using parseObject_nullish [of h "sp_get sp key" w w0]
      by (auto simp: decodeKey_def case_prod_beta)
  next
    case False
    define cp where "cp = (case customSerializers opt key of None \<Rightarrow> None | Some c \<Rightarrow> Some (parse c))"
    have dk: "decodeKey h opt sp key ty u =
            (case parseSingle h (sp_get sp key) ty cp (onError opt) key u of
               Inl thrown \<Rightarrow> Inl thrown
             | Inr (parsed, u1) \<Rightarrow> Inr (if nullish parsed then defaultOf opt key else parsed, u1))" for u
      using notArr False by (cases ty) (simp_all add: decodeKey_def cp_def)
    from assms obtain p where p: "parseSingle h (sp_get sp key) ty cp (onError opt) key w = Inr (p, w1)"
      and v: "v = (if nullish p then defaultOf opt key else p)"
      by (auto simp: dk split: sum.splits)
    from parseSingle_nullish [OF p, of w0] obtain p0 w2 where
      "parseSingle h (sp_get sp key) ty cp (onError opt) key w0 = Inr (p0, w2)" "nullish p0 = nullish p"
      by blast
    with v show ?thesis by (simp add: dk)
  qed
qed

lemma catch_returns:
  "(\<And>e. \<exists>v w'. handler e = Inr (v, w')) \<Longrightarrow>
   \<exists>v w'. (case body of Inl e \<Rightarrow> handler e | Inr r \<Rightarrow> Inr r) = Inr (v, w')"
  by (cases body) auto

lemma parseSingle_returns:
  assumes "callbackReturns onErr"
  shows "\<exists>v w'. parseSingle h raw ty cp onErr key w = Inr (v, w')"
proof (cases raw)
  case None
  then show ?thesis by (simp add: parseSingle_def)
next
  case (Some s)
  have hnd: "\<exists>v w'. (case onErr of
                        Some cb \<Rightarrow>
                          if key \<noteq> []
                          then (case callOnError cb e key (Str s) w of
                                  Inl thrown \<Rightarrow> Inl thrown
                                | Inr w1 \<Rightarrow> Inr (Undefined, w1))
                          else Inr (Undefined, w)
                      | None \<Rightarrow> Inr (Undefined, w)) = Inr (v, w')" for e
    using assms by (cases onErr) (simp_all add: callOnError_returns)
  show ?thesis
    unfolding parseSingle_def Some option.case
    by (rule catch_returns) (rule hnd)
qed


lemma decodeKey_returns:
  assumes "onErrorReturns opt"
  shows "\<exists>v w'. decodeKey h opt sp key ty w = Inr (v, w')"
proof -
  define cp where "cp = (case customSerializers opt key of None \<Rightarrow> None | Some c \<Rightarrow> Some (parse c))"
  from assms parseSingle_returns [of "onError opt" h "sp_get sp key" ty cp key w]
  obtain p w1 where "parseSingle h (sp_get sp key) ty cp (onError opt) key w = Inr (p, w1)"
    by (auto simp: onErrorReturns_def)
  then show ?thesis
    unfolding cp_def
    by (cases ty) (auto simp: decodeKey_def Let_def split: prod.splits)
qed

lemma validateKey_returns:
  assumes "validatorsReturn opt" and "onErrorReturns opt"
  shows "\<exists>v w'. validateKey opt key val w = Inr (v, w')"
proof (cases "validation opt key")
  case None
  then show ?thesis by (simp add: validateKey_def)
next
  case (Some f)
  with assms(1) obtain b where b: "f val = Inr b"
    unfolding validatorsReturn_def by blast
  show ?thesis
  proof (cases "onError opt")
    case None
    with Some b show ?thesis by (simp add: validateKey_def Let_def)
  next
    case cb: (Some cb)
    with assms(2) have "callOnError cb e k v u = Inr (u\<lparr>reported := reported u @ [(e, k, v)]\<rparr>)" for e k v u
      using callOnError_returns by (simp add: onErrorReturns_def)
    with Some b cb show ?thesis by (simp add: validateKey_def Let_def)
  qed
qed

lemma getParamsLoop_returns:
  "validatorsReturn opt \<Longrightarrow> onErrorReturns opt \<Longrightarrow>
   \<exists>out' w'. getParamsLoop h opt sp cfg out w = Inr (out', w')"
proof (induction cfg arbitrary: out w)
  case Nil
  then show ?case by simp
next
  case (Cons kt rest)
  from decodeKey_returns [OF Cons.prems(2)] obtain val w1
    where d: "decodeKey h opt sp (fst kt) (snd kt) w = Inr (val, w1)" by blast
  from validateKey_returns [OF Cons.prems] obtain v w2
    where v: "validateKey opt (fst kt) val w1 = Inr (v, w2)" by blast
  from Cons.IH [OF Cons.prems] obtain out' w'
    where "getParamsLoop h opt sp rest (setProp out (fst kt) v) w2 = Inr (out', w')" by blast
  with d v show ?case by simp
qed

lemma getParams_returns:
  assumes "validatorsReturn opt" and "onErrorReturns opt"
  shows "\<exists>out w'. getParams h cfg opt w = Inr (out, w')"
proof -
  from getParamsLoop_returns [OF assms] obtain ps w' where
    "getParamsLoop h opt (getSearchParams w) cfg [] (w\<lparr>nextAddr := Suc (nextAddr w)\<rparr>) = Inr (ps, w')"
    by blast
  then show ?thesis by (simp add: getParams_def)
qed

lemma parseSingle_validated:
  "parseSingle h raw ty cp onErr key w = Inr (v, w') \<Longrightarrow> validated w' = validated w"
  using parseSingle_readOnly [of h raw ty cp onErr key w v w']
  by (auto simp: readOnly_def parseSingle_def callOnError_def Let_def
      split: option.splits sum.splits QueryParamType.splits if_splits)

lemma parseObject_validated: "parseObject h raw w = (v, w') \<Longrightarrow> validated w' = validated w"
  by (auto simp: parseObject_def split: option.splits sum.splits)

lemma decodeKey_validated:
  assumes "decodeKey h opt sp key ty w = Inr (v, w')"
  shows "validated w' = validated w"
proof (cases "ty = TStringArr")
  case True
  with assms show ?thesis
    by (auto simp: decodeKey_def Let_def split: if_splits)
next
  case notArr: False
  show ?thesis
  proof (cases "ty = TObject")
    case True
    with assms obtain p where "parseObject h (sp_get sp key) w = (p, w')"
      by (auto simp: decodeKey_def split: prod.splits)
    then show ?thesis by (rule parseObject_validated)
  next
    case False
    with notArr assms obtain p cp where "parseSingle h (sp_get sp key) ty cp (onError opt) key w = Inr (p, w')"
      by (cases ty) (auto simp: decodeKey_def split: prod.splits sum.splits)
    then show ?thesis by (rule parseSingle_validated)
  qed
qed

lemma validateKey_validated:
  "validateKey opt key val w = Inr (v, w') \<Longrightarrow>
   validated w' = validated w @ (if validation opt key \<noteq> None \<and> \<not> nullish val then [(key, val)] else [])"
  by (auto simp: validateKey_def callOnError_def Let_def split: option.splits sum.splits if_splits)

lemma getParamsLoop_validated:
  "getParamsLoop h opt sp cfg out w = Inr (out', w') \<Longrightarrow>
   \<exists>vs. validated w' = validated w @ vs
        \<and> map fst vs = map fst (filter (\<lambda>kt. validation opt (fst kt) \<noteq> None \<and> present h opt sp kt) cfg)"
proof (induction cfg arbitrary: out w)
  case Nil
  then show ?case by simp
next
  case (Cons kt rest)
  from Cons.prems obtain val w1 val' w2 where d: "decodeKey h opt sp (fst kt) (snd kt) w = Inr (val, w1)"
    and v: "validateKey opt (fst kt) val w1 = Inr (val', w2)"
    and l: "getParamsLoop h opt sp rest (setProp out (fst kt) val') w2 = Inr (out', w')"
    by (auto split: sum.splits)
  from Cons.IH [OF l] obtain vs where vs: "validated w' = validated w2 @ vs"
    "map fst vs = map fst (filter (\<lambda>kt. validation opt (fst kt) \<noteq> None \<and> present h opt sp kt) rest)"
    by blast
  from decodeKey_nullish [OF d, of "freshPage []"] obtain v0 u where
    "decodeKey h opt sp (fst kt) (snd kt) (freshPage []) = Inr (v0, u)" "nullish v0 = nullish val"
    by blast
  then have np: "nullish val = (\<not> present h opt sp kt)"
    by (simp add: present_def)
  let ?here = "if validation opt (fst kt) \<noteq> None \<and> \<not> nullish val then [(fst kt, val)] else []"
  have "validated w2 = validated w @ ?here"
    using decodeKey_validated [OF d] validateKey_validated [OF v] by simp
  with vs np show ?case
    by (intro exI [of _ "?here @ vs"]) simp
qed

lemma validatedBy_keys:
  assumes "validatorsReturn opt" and "onErrorReturns opt"
  shows "map fst (validatedBy h cfg opt w)
       = map fst (filter (\<lambda>kt. validation opt (fst kt) \<noteq> None \<and> present h opt (getSearchParams w) kt) cfg)"
proof -
  from getParams_returns [OF assms] obtain out w' where g: "getParams h cfg opt w = Inr (out, w')"
    by blast
  then obtain ps where
    "getParamsLoop h opt (getSearchParams w) cfg [] (w\<lparr>nextAddr := Suc (nextAddr w)\<rparr>) = Inr (ps, w')"
    by (auto simp: getParams_def split: sum.splits)
  from getParamsLoop_validated [OF this] obtain vs where
    "validated w' = validated w @ vs"
    "map fst vs = map fst (filter (\<lambda>kt. validation opt (fst kt) \<noteq> None \<and> present h opt (getSearchParams w) kt) cfg)"
    by auto
  with g show ?thesis by (simp add: validatedBy_def)
qed

text \<open>
  Claim C6 (validation is a single pass). With a validator configured for a key and a
  decoded-or-defaulted value that is present, one turn of the loop calls the validator
  exactly once, on that value. When it returns false, \<open>onError\<close> (if configured) is
  called exactly once, with the message \<open>Validation failed for <key>\<close>, the key and
  the rejected value, and the value becomes the configured default (\<open>undefined\<close> when
  there is none); the default is not validated. When it returns true the value is kept
  and nothing is reported. An absent value is not validated. Over a whole read, the
  validator calls are exactly one per declared key that has a validator and a present
  value, in the order of the declaration. The callbacks are those the specification
  describes: no validator throws, and \<open>onError\<close> does not throw.
\<close>

theorem C6_validator_single_pass:
  assumes "validation opt key = Some f" and "\<not> nullish val" and "f val = Inr ok"
    and "validatorsReturn opt" and "onErrorReturns opt"
  shows "validateKey opt key val w =
           Inr (if ok then val else defaultOf opt key,
                w\<lparr>validated := validated w @ [(key, val)],
                  reported := reported w @
                    (if ok \<or> onError opt = None then []
                     else [(Error (''Validation failed for '' @ key), key, val)])\<rparr>)
         \<and> validateKey opt key Undefined w = Inr (Undefined, w)
         \<and> validateKey opt key Null w = Inr (Null, w)
         \<and> map fst (validatedBy h cfg opt w)
             = map fst (filter (\<lambda>kt. validation opt (fst kt) \<noteq> None
                                     \<and> present h opt (getSearchParams w) kt) cfg)"
proof -
  have step: "validateKey opt key val w =
           Inr (if ok then val else defaultOf opt key,
                w\<lparr>validated := validated w @ [(key, val)],
                  reported := reported w @
                    (if ok \<or> onError opt = None then []
                     else [(Error (''Validation failed for '' @ key), key, val)])\<rparr>)"
  proof (cases "onError opt")
    case None
    with assms(1,2,3) show ?thesis by (simp add: validateKey_def Let_def)
  next
    case (Some cb)
    with assms(5) have "callOnError cb e k v u = Inr (u\<lparr>reported := reported u @ [(e, k, v)]\<rparr>)" for e k v u
      using callOnError_returns by (simp add: onErrorReturns_def)
    with Some assms(1,2,3) show ?thesis by (simp add: validateKey_def Let_def)
  qed
  have absent: "validateKey opt key Undefined w = Inr (Undefined, w)"
    "validateKey opt key Null w = Inr (Null, w)"
    using assms(1) by (simp_all add: validateKey_def)
  from step absent validatedBy_keys [OF assms(4,5)] show ?thesis by simp
qed

text \<open>The validator \<open>(x) => x > 0\<close> and the options
  \<open>{defaultValues: {page: 1}, validation: {page: (x) => x > 0}, onError}\<close>; the witness
  is the example of the specification, the address \<open>?page=-1\<close>.\<close>

definition positive :: "jsval \<Rightarrow> error + bool" where
  "positive v = (case v of Num (Fin r) \<Rightarrow> Inr (0 < r) | _ \<Rightarrow> Inr False)"

definition validatedOpts :: options where
  "validatedOpts = pageOpts\<lparr>validation := [''page'' \<mapsto> positive]\<rparr>"

lemma positive_returns: "\<exists>b. positive v = Inr b"
  by (auto simp: positive_def split: jsval.splits number.splits)

lemma logger_returns: "callbackReturns (Some logger)"
  by (simp add: callbackReturns_def logger_def)

theorem C6_witness_negative_page:
  "(case getParams samplePlatform pageCfg validatedOpts (freshPage ''/list?page=-1'') of
      Inl e \<Rightarrow> False
    | Inr (out, w) \<Rightarrow>
        props out = [(''page'', Num (Fin 1))]
        \<and> reported w = [(Error ''Validation failed for page'', ''page'', Num (Fin (- 1)))]
        \<and> validated w = [(''page'', Num (Fin (- 1)))])
   \<and> validateKey validatedOpts ''page'' (Num (Fin (- 1))) (freshPage ''/list?page=-1'')
       = Inr (Num (Fin 1),
              (freshPage ''/list?page=-1'')
                \<lparr>validated := [(''page'', Num (Fin (- 1)))],
                 reported := [(Error ''Validation failed for page'', ''page'', Num (Fin (- 1)))]\<rparr>)
   \<and> map fst (validatedBy samplePlatform pageCfg validatedOpts (freshPage ''/list?page=-1'')) = [''page'']"
proof -
  have read: "(case getParams samplePlatform pageCfg validatedOpts (freshPage ''/list?page=-1'') of
      Inl e \<Rightarrow> False
    | Inr (out, w) \<Rightarrow>
        props out = [(''page'', Num (Fin 1))]
        \<and> reported w = [(Error ''Validation failed for page'', ''page'', Num (Fin (- 1)))]
        \<and> validated w = [(''page'', Num (Fin (- 1)))])"
    by code_simp
  have pres: "present samplePlatform validatedOpts (getSearchParams (freshPage ''/list?page=-1'')) (''page'', TNumber)"
    by code_simp
  have v: "validation validatedOpts ''page'' = Some positive"
    by (simp add: validatedOpts_def)
  have n: "\<not> nullish (Num (Fin (- 1)))" by simp
  have p: "positive (Num (Fin (- 1))) = Inr False" by (simp add: positive_def)
  have r: "validatorsReturn validatedOpts"
    using positive_returns by (auto simp: validatorsReturn_def validatedOpts_def split: if_splits)
  have q: "onErrorReturns validatedOpts"
    using logger_returns by (simp add: onErrorReturns_def validatedOpts_def pageOpts_def)
  show ?thesis
    using read pres C6_validator_single_pass [OF v n p r q, of "freshPage ''/list?page=-1''" samplePlatform pageCfg]
    by (simp add: validatedOpts_def pageOpts_def defaultOf_def freshPage_def pageCfg_def)
qed

section \<open>Notification\<close>

text \<open>
  \<open>shell\<close> collects the parts of the state that a callback \<open>handle\<close> never changes,
  \<open>hookSpecs\<close> the declaration and options of each mounted instance.
  \<open>subscribersReturn w\<close>: no validator and no \<open>onError\<close> of a subscribed instance
  throws.
\<close>

definition shell ::
  "world \<Rightarrow> string \<times> histfn \<times> histfn \<times> bool \<times> histfn option \<times> histfn option \<times> int \<times> nat list
    \<times> nat list \<times> (HistoryMode \<times> string) list" where
  "shell w =
     (url w, pushState w, replaceState w, isHistoryPatched w, originalPushState w,
      originalReplaceState w, patchCount w, subs w, popstateListeners w, commits w)"

definition hookSpecs :: "world \<Rightarrow> nat \<Rightarrow> (QueryparamConfig \<times> options) option" where
  "hookSpecs w i = map_option (\<lambda>hk. (config hk, opts hk)) (hooks w i)"

definition quiet :: "nat list \<Rightarrow> world \<Rightarrow> bool" where
  "quiet is w =
     (\<forall>i\<in>set is. \<forall>c opt. hookSpecs w i = Some (c, opt) \<longrightarrow> validatorsReturn opt \<and> onErrorReturns opt)"

definition subscribersReturn :: "world \<Rightarrow> bool" where
  "subscribersReturn w = quiet (subs w) w"

lemma readOnly_shell:
  assumes "readOnly w w'"
  shows "shell w' = shell w \<and> hookSpecs w' = hookSpecs w \<and> invoked w' = invoked w"
proof -
  have "hookSpecs w' = hookSpecs w"
    by (rule ext) (simp add: hookSpecs_def readOnly_fields(10) [OF assms])
  moreover have "shell w' = shell w"
    by (simp add: shell_def readOnly_fields [OF assms])
  ultimately show ?thesis by (simp add: readOnly_fields(12) [OF assms])
qed

lemma setParams_shell:
  "shell (setParams i n w) = shell w \<and> hookSpecs (setParams i n w) = hookSpecs w
   \<and> invoked (setParams i n w) = invoked w"
proof -
  have "hookSpecs (setParams i n w) = hookSpecs w"
    by (rule ext) (simp add: setParams_def hookSpecs_def Let_def split: option.splits)
  moreover have "shell (setParams i n w) = shell w \<and> invoked (setParams i n w) = invoked w"
    by (simp add: setParams_def shell_def Let_def split: option.splits)
  ultimately show ?thesis by simp
qed

lemma handle_shell:
  assumes "handle h i w = Inr w'"
  shows "shell w' = shell w \<and> hookSpecs w' = hookSpecs w \<and> invoked w' = invoked w @ [i]"
proof -
  let ?w0 = "w\<lparr>invoked := invoked w @ [i]\<rparr>"
  have "hookSpecs ?w0 = hookSpecs w"
    by (rule ext) (simp add: hookSpecs_def)
  then have w0: "shell ?w0 = shell w \<and> hookSpecs ?w0 = hookSpecs w \<and> invoked ?w0 = invoked w @ [i]"
    by (simp add: shell_def)
  show ?thesis
  proof (cases "hooks ?w0 i")
    case None
    with assms have "w' = ?w0" by (simp add: handle_def Let_def)
    with w0 show ?thesis by simp
  next
    case (Some hk)
    with assms obtain np w1 where g: "getParams h (config hk) (opts hk) ?w0 = Inr (np, w1)"
      and w': "w' = setParams i np w1"
      by (auto simp: handle_def Let_def split: sum.splits)
    from readOnly_shell [OF getParams_readOnly [OF g]] w0 w' setParams_shell [of i np w1]
    show ?thesis by simp
  qed
qed

lemma handle_returns:
  assumes "quiet [i] w"
  shows "\<exists>w'. handle h i w = Inr w'"
proof -
  let ?w0 = "w\<lparr>invoked := invoked w @ [i]\<rparr>"
  show ?thesis
  proof (cases "hooks ?w0 i")
    case None
    then show ?thesis by (simp add: handle_def Let_def)
  next
    case (Some hk)
    then have "hookSpecs w i = Some (config hk, opts hk)" by (simp add: hookSpecs_def)
    with assms have "validatorsReturn (opts hk)" "onErrorReturns (opts hk)" by (simp_all add: quiet_def)
    from getParams_returns [OF this] obtain np w1
      where "getParams h (config hk) (opts hk) ?w0 = Inr (np, w1)" by blast
    with Some show ?thesis by (simp add: handle_def Let_def)
  qed
qed

lemma quiet_cong: "hookSpecs w' = hookSpecs w \<Longrightarrow> quiet is w' = quiet is w"
  by (simp add: quiet_def)

lemma notifyAll_run:
  "quiet is w \<Longrightarrow>
   \<exists>w'. notifyAll h is w = Inr w' \<and> shell w' = shell w \<and> hookSpecs w' = hookSpecs w
        \<and> invoked w' = invoked w @ is"
proof (induction "is" arbitrary: w)
  case Nil
  then show ?case by simp
next
  case (Cons i rest)
  from Cons.prems have qi: "quiet [i] w" and qr: "quiet rest w" by (simp_all add: quiet_def)
  from handle_returns [OF qi] obtain w1 where h1: "handle h i w = Inr w1" by blast
  from handle_shell [OF h1] have f1: "shell w1 = shell w" "hookSpecs w1 = hookSpecs w"
    "invoked w1 = invoked w @ [i]" by simp_all
  from qr quiet_cong [OF f1(2), of rest] have "quiet rest w1" by simp
  from Cons.IH [OF this] obtain w' where "notifyAll h rest w1 = Inr w'" "shell w' = shell w1"
    "hookSpecs w' = hookSpecs w1" "invoked w' = invoked w1 @ rest" by blast
  with h1 f1 show ?case by simp
qed

lemma notify_run:
  assumes "subscribersReturn w"
  shows "\<exists>w'. notify h w = Inr w' \<and> shell w' = shell w \<and> hookSpecs w' = hookSpecs w
        \<and> invoked w' = invoked w @ subs w"
  using notifyAll_run [of "subs w" w h] assms by (simp add: notify_def subscribersReturn_def)

lemma subscribersReturn_cong:
  "shell w' = shell w \<Longrightarrow> hookSpecs w' = hookSpecs w \<Longrightarrow> subscribersReturn w' = subscribersReturn w"
  by (simp add: subscribersReturn_def quiet_def shell_def)

text \<open>
  \<open>pristine\<close>: the history functions are the browser's own and nothing is patched.
  \<open>installed\<close>: the interception is installed as \<open>patchHistory\<close> installs it on a
  pristine page. \<open>historyCallable\<close>: a call of \<open>history.pushState\<close> or
  \<open>history.replaceState\<close> reaches the browser's function; this holds of a pristine page
  and while the interception is installed.
\<close>

definition installed :: "world \<Rightarrow> bool" where
  "installed w =
     (isHistoryPatched w \<and> pushState w = Wrapper Push \<and> replaceState w = Wrapper Replace
      \<and> originalPushState w = Some (Native Push) \<and> originalReplaceState w = Some (Native Replace))"

definition pristine :: "world \<Rightarrow> bool" where
  "pristine w = (\<not> isHistoryPatched w \<and> pushState w = Native Push \<and> replaceState w = Native Replace)"





lemma freshPage_pristine: "pristine (freshPage u) \<and> subscribersReturn (freshPage u)"
  by (simp add: pristine_def freshPage_def subscribersReturn_def quiet_def)








lemma mount_returns:
  assumes "validatorsReturn opt" and "onErrorReturns opt"
  shows "\<exists>w'. mount h i cfg opt w = Inr w'"
proof -
  from getParams_returns [OF assms] obtain p w1 where "getParams h cfg opt w = Inr (p, w1)"
    by blast
  then show ?thesis by (simp add: mount_def Let_def)
qed

lemma patchHistory_installed:
  "pristine w \<or> installed w \<Longrightarrow> installed (patchHistory w)"
  by (auto simp: pristine_def installed_def patchHistory_def)

lemma mount_installed:
  assumes "pristine w \<or> installed w" and "mount h i cfg opt w = Inr w'"
  shows "installed w'"
proof -
  from assms(2) obtain p w1 where g: "getParams h cfg opt w = Inr (p, w1)"
    by (auto simp: mount_def split: sum.splits)
  let ?w2 = "w1\<lparr>hooks := (hooks w1)(i \<mapsto> \<lparr>config = cfg, opts = opt, params = p\<rparr>),
               published := published w1 @ [(i, p)]\<rparr>"
  from readOnly_fields [OF getParams_readOnly [OF g]] assms(1)
  have "pristine ?w2 \<or> installed ?w2" by (auto simp: pristine_def installed_def)
  then have "installed (patchHistory ?w2)" by (rule patchHistory_installed)
  moreover from assms(2) g have
    "w' = (patchHistory ?w2)\<lparr>popstateListeners := popstateListeners (patchHistory ?w2) @ [i],
                              subs := subs (patchHistory ?w2) @ [i]\<rparr>"
    by (simp add: mount_def Let_def)
  ultimately show ?thesis by (simp add: installed_def)
qed

lemma mount_subscribers:
  assumes "subscribersReturn w" and "validatorsReturn opt" and "onErrorReturns opt"
    and "mount h i cfg opt w = Inr w'"
  shows "subscribersReturn w' \<and> subs w' = subs w @ [i] \<and> invoked w' = invoked w
         \<and> commits w' = commits w \<and> url w' = url w"
proof -
  from assms(4) obtain p w1 where g: "getParams h cfg opt w = Inr (p, w1)"
    by (auto simp: mount_def split: sum.splits)
  let ?w2 = "w1\<lparr>hooks := (hooks w1)(i \<mapsto> \<lparr>config = cfg, opts = opt, params = p\<rparr>),
               published := published w1 @ [(i, p)]\<rparr>"
  let ?w3 = "patchHistory ?w2"
  from assms(4) g have w': "w' = ?w3\<lparr>popstateListeners := popstateListeners ?w3 @ [i], subs := subs ?w3 @ [i]\<rparr>"
    by (simp add: mount_def Let_def)
  note f = readOnly_fields [OF getParams_readOnly [OF g]]
  have h3: "hooks ?w3 = (hooks w)(i \<mapsto> \<lparr>config = cfg, opts = opt, params = p\<rparr>)"
    "subs ?w3 = subs w" "invoked ?w3 = invoked w" "commits ?w3 = commits w" "url ?w3 = url w"
    using f by (simp_all add: patchHistory_def)
  have hs: "hookSpecs w' j = (if j = i then Some (cfg, opt) else hookSpecs w j)" for j
    using h3(1) by (simp add: w' hookSpecs_def)
  have sub: "subs w' = subs w @ [i]" using h3(2) by (simp add: w')
  have "subscribersReturn w'"
    using assms(1,2,3) unfolding subscribersReturn_def quiet_def sub
    by (auto simp: hs split: if_splits)
  with sub h3 show ?thesis by (simp add: w')
qed

section \<open>Errors never reach the caller, unless a callback throws outside a catch clause\<close>








section \<open>A commit notifies every subscriber twice\<close>

text \<open>
  Claim C10 (double notification). While the interception is installed, a commit by
  \<open>applyUrl\<close> calls the browser's function once and then calls the callback of every
  subscriber twice, in the order of \<open>subs\<close>: once from the wrapper of the history
  function, once from the \<open>notify\<close> of \<open>applyUrl\<close> itself. The callbacks are those of
  the hook, and no validator and no \<open>onError\<close> of a subscribed instance throws.
\<close>

theorem C10_commit_notifies_twice:
  assumes "installed w" and "subscribersReturn w"
  shows "\<exists>w'. applyUrl h newUrl mode w = Inr w'
           \<and> invoked w' = invoked w @ subs w @ subs w
           \<and> commits w' = commits w @ [(mode, newUrl)]
           \<and> url w' = newUrl"
proof -
  let ?n = "nativeHistory mode newUrl w"
  have "hookSpecs ?n = hookSpecs w"
    by (rule ext) (simp add: nativeHistory_def hookSpecs_def)
  then have n: "subs ?n = subs w" "invoked ?n = invoked w" "commits ?n = commits w @ [(mode, newUrl)]"
    "url ?n = newUrl" "hookSpecs ?n = hookSpecs w"
    by (simp_all add: nativeHistory_def)
  then have "subscribersReturn ?n"
    using assms(2) by (simp add: subscribersReturn_def quiet_def)
  from notify_run [OF this, of h] obtain w1 where w1: "notify h ?n = Inr w1" "shell w1 = shell ?n"
    "hookSpecs w1 = hookSpecs ?n" "invoked w1 = invoked ?n @ subs ?n" by blast
  have call: "callHistory h (case mode of Push \<Rightarrow> pushState w | Replace \<Rightarrow> replaceState w) newUrl w = Inr w1"
    using assms(1) w1(1) by (cases mode) (simp_all add: installed_def callHistory_def)
  from w1(2,3) have "subscribersReturn w1 = subscribersReturn ?n" by (rule subscribersReturn_cong)
  with \<open>subscribersReturn ?n\<close> have "subscribersReturn w1" by simp
  from notify_run [OF this, of h] obtain w2 where w2: "notify h w1 = Inr w2" "shell w2 = shell w1"
    "invoked w2 = invoked w1 @ subs w1" by blast
  from w1(2) w2(2) n have "subs w1 = subs w" "commits w2 = commits w @ [(mode, newUrl)]" "url w2 = newUrl"
    by (simp_all add: shell_def)
  with call w2 w1(4) n show ?thesis by (simp add: applyUrl_def)
qed

lemma pageOpts_returns: "validatorsReturn pageOpts"
  by (simp add: validatorsReturn_def pageOpts_def defaultOptions_def)

lemma pageOpts_onError_returns: "onErrorReturns pageOpts"
  using logger_returns by (simp add: onErrorReturns_def pageOpts_def)

theorem C10_witness_two_subscribers:
  "(case mount samplePlatform 1 pageCfg pageOpts (freshPage ''/list'') of
      Inl e \<Rightarrow> False
    | Inr w1 \<Rightarrow>
        (case mount samplePlatform 2 pageCfg pageOpts w1 of
           Inl e \<Rightarrow> False
         | Inr w2 \<Rightarrow>
             installed w2 \<and> subs w2 = [1, 2] \<and> invoked w2 = []
             \<and> (case applyUrl samplePlatform ''/list?page=1'' Push w2 of
                   Inl e \<Rightarrow> False
                 | Inr w3 \<Rightarrow>
                     invoked w3 = [1, 2, 1, 2] \<and> commits w3 = [(Push, ''/list?page=1'')])))"
proof -
  note r = pageOpts_returns and q = pageOpts_onError_returns
  from mount_returns [OF r q] obtain w1 where
    m1: "mount samplePlatform 1 pageCfg pageOpts (freshPage ''/list'') = Inr w1" by blast
  from mount_returns [OF r q] obtain w2 where
    m2: "mount samplePlatform 2 pageCfg pageOpts w1 = Inr w2" by blast
  have "pristine (freshPage ''/list'')" "subscribersReturn (freshPage ''/list'')"
    using freshPage_pristine by simp_all
  then have i1: "installed w1" and s1: "subscribersReturn w1"
    using mount_installed [OF _ m1] mount_subscribers [OF _ r q m1] by simp_all
  then have i2: "installed w2" and s2: "subscribersReturn w2"
    using mount_installed [OF _ m2] mount_subscribers [OF _ r q m2] by simp_all
  have ev: "(case mount samplePlatform 1 pageCfg pageOpts (freshPage ''/list'') of
      Inl e \<Rightarrow> False
    | Inr w1 \<Rightarrow>
        (case mount samplePlatform 2 pageCfg pageOpts w1 of
           Inl e \<Rightarrow> False
         | Inr w2 \<Rightarrow> subs w2 = [1, 2] \<and> invoked w2 = [] \<and> commits w2 = []))"
    by code_simp
  from ev have c: "subs w2 = [1, 2]" "invoked w2 = []" "commits w2 = []"
    unfolding m1 sum.case m2 by simp_all
  from C10_commit_notifies_twice [OF i2 s2, of samplePlatform "''/list?page=1''" Push]
  obtain w3 where "applyUrl samplePlatform ''/list?page=1'' Push w2 = Inr w3"
    "invoked w3 = invoked w2 @ subs w2 @ subs w2" "commits w3 = commits w2 @ [(Push, ''/list?page=1'')]"
    by blast
  with c i2 show ?thesis unfolding m1 sum.case m2 by simp
qed

section \<open>Publication and reference identity\<close>

text \<open>
  \<open>objAddr\<close> is the address of an object value. \<open>decodesFresh\<close>: the read of the key
  ends with an object that it allocates: a \<open>string[]\<close> key that occurs in the query
  string, an \<open>object\<close> key whose value decodes to a JSON object or array, a \<open>date\<close> key
  with the built-in codec whose value parses to a valid date. \<open>decodedAt\<close> is the
  value that the read of the key ends with when the next free address is \<open>a\<close>.
  \<open>notRejected\<close>: the validator of the key, if any, does not return false for the
  decoded value, at whatever address the read allocates it.
\<close>

fun objAddr :: "jsval \<Rightarrow> nat option" where
  "objAddr (DateObj a t) = Some a"
| "objAddr (ArrObj a xs) = Some a"
| "objAddr (RecObj a kvs) = Some a"
| "objAddr v = None"

definition decodesFresh :: "'o host \<Rightarrow> options \<Rightarrow> searchParams \<Rightarrow> string \<Rightarrow> QueryParamType \<Rightarrow> bool" where
  "decodesFresh h opt sp key ty =
     (case ty of
        TStringArr \<Rightarrow> sp_getAll sp key \<noteq> []
      | TObject \<Rightarrow>
          (case sp_get sp key of
             None \<Rightarrow> False
           | Some s \<Rightarrow>
               (case decodeURIComponent h s of
                  Inl e \<Rightarrow> False
                | Inr d \<Rightarrow>
                    (case jsonParse h d of
                       Inl e \<Rightarrow> False
                     | Inr j \<Rightarrow> (case j of JArr xs \<Rightarrow> True | JObj kvs \<Rightarrow> True | _ \<Rightarrow> False))))
      | TDate \<Rightarrow>
          customSerializers opt key = None
          \<and> (case sp_get sp key of None \<Rightarrow> False | Some s \<Rightarrow> dateParse h s \<noteq> None)
      | _ \<Rightarrow> False)"

definition decodedAt ::
  "'o host \<Rightarrow> options \<Rightarrow> searchParams \<Rightarrow> string \<Rightarrow> QueryParamType \<Rightarrow> nat \<Rightarrow> jsval" where
  "decodedAt h opt sp key ty a =
     (case decodeKey h opt sp key ty ((freshPage [])\<lparr>nextAddr := a\<rparr>) of
        Inl e \<Rightarrow> Undefined
      | Inr (v, w) \<Rightarrow> v)"

definition notRejected :: "'o host \<Rightarrow> options \<Rightarrow> searchParams \<Rightarrow> string \<Rightarrow> QueryParamType \<Rightarrow> bool" where
  "notRejected h opt sp key ty =
     (\<forall>f a. validation opt key = Some f \<longrightarrow> f (decodedAt h opt sp key ty a) \<noteq> Inr False)"

lemma strictEq_objects:
  "objAddr a = Some x \<Longrightarrow> objAddr b = Some y \<Longrightarrow> x \<noteq> y \<Longrightarrow> \<not> strictEq a b"
  by (cases a; cases b) simp_all

lemma decodeKey_fresh:
  assumes "decodesFresh h opt sp key ty" and "decodeKey h opt sp key ty w = Inr (v, w')"
  shows "(\<exists>a. objAddr v = Some a \<and> nextAddr w \<le> a \<and> a < nextAddr w')
         \<and> v = decodedAt h opt sp key ty (nextAddr w)"
proof (cases ty)
  case TStringArr
  with assms show ?thesis by (auto simp: decodesFresh_def decodeKey_def decodedAt_def Let_def)
next
  case TObject
  with assms(1) obtain s d j where s: "sp_get sp key = Some s" "decodeURIComponent h s = Inr d"
    "jsonParse h d = Inr j" and j: "(\<exists>xs. j = JArr xs) \<or> (\<exists>kvs. j = JObj kvs)"
    by (auto simp: decodesFresh_def split: option.splits sum.splits json.splits)
  then have "parseObject h (sp_get sp key) u = (reify (nextAddr u) j, u\<lparr>nextAddr := Suc (nextAddr u)\<rparr>)" for u
    by (simp add: parseObject_def)
  with assms(2) TObject j show ?thesis by (auto simp: decodeKey_def decodedAt_def)
next
  case TDate
  with assms(1) obtain s t where "sp_get sp key = Some s" "dateParse h s = Some t"
    "customSerializers opt key = None"
    by (auto simp: decodesFresh_def split: option.splits)
  with assms(2) TDate show ?thesis by (auto simp: decodeKey_def parseSingle_def decodedAt_def)
qed (use assms(1) in \<open>simp_all add: decodesFresh_def\<close>)

lemma validateKey_keeps:
  assumes "\<forall>f. validation opt key = Some f \<longrightarrow> f val \<noteq> Inr False"
    and "validateKey opt key val w = Inr (v, w')"
  shows "v = val"
proof (cases "validation opt key")
  case None
  with assms(2) show ?thesis by (simp add: validateKey_def)
next
  case (Some f)
  with assms(1) have "f val \<noteq> Inr False" by simp
  with Some assms(2) show ?thesis
    by (auto simp: validateKey_def Let_def split: if_splits sum.splits)
qed

lemma getProp_setProp: "getProp (setProp ps k v) k' = (if k' = k then v else getProp ps k')"
  by (induction ps) (auto simp: getProp_def)

lemma keys_setProp: "fst ` set (setProp ps k v) = insert k (fst ` set ps)"
  by (induction ps) auto

lemma length_setProp: "length (setProp ps k v) = (if k \<in> fst ` set ps then length ps else Suc (length ps))"
  by (induction ps) auto

lemma getParamsLoop_other:
  "getParamsLoop h opt sp cfg out w = Inr (out', w') \<Longrightarrow> key \<notin> fst ` set cfg \<Longrightarrow>
   getProp out' key = getProp out key"
proof (induction cfg arbitrary: out w)
  case Nil
  then show ?case by simp
next
  case (Cons kt rest)
  from Cons.prems(1) obtain val w1 val' w2 where d: "decodeKey h opt sp (fst kt) (snd kt) w = Inr (val, w1)"
    and v: "validateKey opt (fst kt) val w1 = Inr (val', w2)"
    and l: "getParamsLoop h opt sp rest (setProp out (fst kt) val') w2 = Inr (out', w')"
    by (auto split: sum.splits)
  from Cons.prems(2) have "key \<notin> fst ` set rest" "key \<noteq> fst kt" by auto
  with Cons.IH [OF l] show ?case by (simp add: getProp_setProp)
qed

lemma getParamsLoop_keys:
  "getParamsLoop h opt sp cfg out w = Inr (out', w') \<Longrightarrow>
   fst ` set out' = fst ` set out \<union> fst ` set cfg"
proof (induction cfg arbitrary: out w)
  case Nil
  then show ?case by simp
next
  case (Cons kt rest)
  from Cons.prems(1) obtain val w1 val' w2 where d: "decodeKey h opt sp (fst kt) (snd kt) w = Inr (val, w1)"
    and v: "validateKey opt (fst kt) val w1 = Inr (val', w2)"
    and l: "getParamsLoop h opt sp rest (setProp out (fst kt) val') w2 = Inr (out', w')"
    by (auto split: sum.splits)
  from Cons.IH [OF l] show ?case by (simp add: keys_setProp)
qed

lemma getParamsLoop_length:
  "getParamsLoop h opt sp cfg [] w = Inr (out', w') \<Longrightarrow> distinct (map fst cfg) \<Longrightarrow>
   length out' = length cfg"
proof -
  have "getParamsLoop h opt sp cfg out w = Inr (out', w') \<Longrightarrow> distinct (map fst cfg) \<Longrightarrow>
      fst ` set out \<inter> fst ` set cfg = {} \<Longrightarrow> length out' = length out + length cfg" for out
  proof (induction cfg arbitrary: out w)
    case Nil
    then show ?case by simp
  next
    case (Cons kt rest)
    from Cons.prems(1) obtain val w1 val' w2 where d: "decodeKey h opt sp (fst kt) (snd kt) w = Inr (val, w1)"
      and v: "validateKey opt (fst kt) val w1 = Inr (val', w2)"
      and l: "getParamsLoop h opt sp rest (setProp out (fst kt) val') w2 = Inr (out', w')"
      by (auto split: sum.splits)
    from Cons.prems(2,3) have "distinct (map fst rest)"
      "fst ` set (setProp out (fst kt) val') \<inter> fst ` set rest = {}" "fst kt \<notin> fst ` set out"
      by (auto simp: keys_setProp)
    with Cons.IH [OF l] show ?case by (simp add: length_setProp)
  qed
  then show "getParamsLoop h opt sp cfg [] w = Inr (out', w') \<Longrightarrow> distinct (map fst cfg) \<Longrightarrow>
   length out' = length cfg" by fastforce
qed

lemma getParamsLoop_fresh:
  "getParamsLoop h opt sp cfg out w = Inr (out', w') \<Longrightarrow> (key, ty) \<in> set cfg \<Longrightarrow>
   distinct (map fst cfg) \<Longrightarrow> decodesFresh h opt sp key ty \<Longrightarrow> notRejected h opt sp key ty \<Longrightarrow>
   \<exists>a. objAddr (getProp out' key) = Some a \<and> nextAddr w \<le> a \<and> a < nextAddr w'"
proof (induction cfg arbitrary: out w)
  case Nil
  then show ?case by simp
next
  case (Cons kt rest)
  from Cons.prems(1) obtain val w1 val' w2 where d: "decodeKey h opt sp (fst kt) (snd kt) w = Inr (val, w1)"
    and v: "validateKey opt (fst kt) val w1 = Inr (val', w2)"
    and l: "getParamsLoop h opt sp rest (setProp out (fst kt) val') w2 = Inr (out', w')"
    by (auto split: sum.splits)
  note m1 = readOnly_fields(14) [OF decodeKey_readOnly [OF d]]
  note m2 = readOnly_fields(14) [OF validateKey_readOnly [OF v]]
  note m3 = readOnly_fields(14) [OF getParamsLoop_readOnly [OF l]]
  show ?case
  proof (cases "kt = (key, ty)")
    case True
    with Cons.prems(3) have notin: "key \<notin> fst ` set rest" by auto
    from True d Cons.prems(4) decodeKey_fresh [of h opt sp key ty w val w1]
    obtain a where a: "objAddr val = Some a" "nextAddr w \<le> a" "a < nextAddr w1"
      and da: "val = decodedAt h opt sp key ty (nextAddr w)" by auto
    from Cons.prems(5) da have "\<forall>f. validation opt key = Some f \<longrightarrow> f val \<noteq> Inr False"
      by (simp add: notRejected_def)
    from validateKey_keeps [OF this, of w1 val' w2] True v have "val' = val" by simp
    with getParamsLoop_other [OF l notin] True have "getProp out' key = val"
      by (simp add: getProp_setProp)
    with a m2 m3 show ?thesis by auto
  next
    case False
    with Cons.prems(2,3) have "(key, ty) \<in> set rest" "distinct (map fst rest)" by auto
    from Cons.IH [OF l this Cons.prems(4,5)] m1 m2 show ?thesis by auto
  qed
qed

lemma shallowEqual_differs:
  assumes "addr a \<noteq> addr b" and "key \<in> fst ` set (props a)"
    and "\<not> strictEq (getProp (props a) key) (getProp (props b) key)"
  shows "\<not> shallowEqual a b"
  using assms by (auto simp: shallowEqual_def list_all_iff)

text \<open>
  Claim C9 (fresh objects defeat the shallow comparison), as the code has it. When a
  declared key decodes to an object that the read allocates, and the validator of the
  key, if any, does not reject that object, two reads of the same unchanged address
  give snapshots that \<open>shallowEqual\<close> judges different: the two values of the key are
  different objects. So the state update of a notification publishes a new merged
  object although the address did not change. (The claim says so of every such key
  whose value is present in the query string.)
\<close>

theorem C9_fresh_objects_compare_different:
  assumes "(key, ty) \<in> set cfg" and "distinct (map fst cfg)"
    and "decodesFresh h opt (getSearchParams w) key ty"
    and "notRejected h opt (getSearchParams w) key ty"
    and "getParams h cfg opt w = Inr (o1, w1)" and "getParams h cfg opt w1 = Inr (o2, w2)"
  shows "getSearchParams w1 = getSearchParams w \<and> url w2 = url w
       \<and> \<not> shallowEqual o1 o2
       \<and> (hooks u i = Some hk \<and> params hk = o1
            \<longrightarrow> (\<exists>merged. published (setParams i o2 u) = published u @ [(i, merged)]
                   \<and> addr merged = nextAddr u))"
proof -
  note f1 = readOnly_fields [OF getParams_readOnly [OF assms(5)]]
  note f2 = readOnly_fields [OF getParams_readOnly [OF assms(6)]]
  have sp: "getSearchParams w1 = getSearchParams w" using f1(1) by (simp add: getSearchParams_def)
  have u: "url w2 = url w" using f1(1) f2(1) by simp
  from assms(5) obtain ps1 where
    l1: "getParamsLoop h opt (getSearchParams w) cfg [] (w\<lparr>nextAddr := Suc (nextAddr w)\<rparr>) = Inr (ps1, w1)"
    and o1: "o1 = \<lparr>addr = nextAddr w, props = ps1\<rparr>"
    by (auto simp: getParams_def split: sum.splits)
  from assms(6) obtain ps2 where
    l2: "getParamsLoop h opt (getSearchParams w1) cfg [] (w1\<lparr>nextAddr := Suc (nextAddr w1)\<rparr>) = Inr (ps2, w2)"
    and o2: "o2 = \<lparr>addr = nextAddr w1, props = ps2\<rparr>"
    by (auto simp: getParams_def split: sum.splits)
  from getParamsLoop_fresh [OF l1 assms(1,2,3,4)] obtain a1 where
    a1: "objAddr (getProp ps1 key) = Some a1" "Suc (nextAddr w) \<le> a1" "a1 < nextAddr w1" by auto
  from getParamsLoop_fresh [OF l2 assms(1,2) assms(3) [folded sp] assms(4) [folded sp]] obtain a2 where
    a2: "objAddr (getProp ps2 key) = Some a2" "Suc (nextAddr w1) \<le> a2" "a2 < nextAddr w2" by auto
  from a1(3) a2(2) have "a1 \<noteq> a2" by simp
  with a1(1) a2(1) have ne: "\<not> strictEq (getProp ps1 key) (getProp ps2 key)"
    by (rule strictEq_objects)
  have k1: "key \<in> fst ` set ps1"
    using getParamsLoop_keys [OF l1] assms(1) by force
  have "addr o1 \<noteq> addr o2" using o1 o2 a1(2,3) by simp
  moreover have "key \<in> fst ` set (props o1)" using k1 o1 by simp
  moreover have "\<not> strictEq (getProp (props o1) key) (getProp (props o2) key)"
    using ne o1 o2 by simp
  ultimately have diff: "\<not> shallowEqual o1 o2" by (rule shallowEqual_differs)
  have pub: "\<exists>merged. published (setParams i o2 u) = published u @ [(i, merged)]
                   \<and> addr merged = nextAddr u"
    if "hooks u i = Some hk" "params hk = o1"
    using that diff by (simp add: setParams_def Let_def)
  from sp u diff pub show ?thesis by blast
qed

text \<open>The witness: the declaration \<open>{since: 'date'}\<close> with the validator
  \<open>(d) => d.getTime() >= 0\<close> for \<open>since\<close>, at an address whose date is the epoch.\<close>

definition fromEpoch :: "jsval \<Rightarrow> error + bool" where
  "fromEpoch v = (case v of DateObj a (Some t) \<Rightarrow> Inr (0 \<le> t) | _ \<Rightarrow> Inr False)"

definition sinceOpts :: options where
  "sinceOpts = defaultOptions\<lparr>validation := [''since'' \<mapsto> fromEpoch]\<rparr>"

lemma defaultOptions_returns: "validatorsReturn defaultOptions \<and> onErrorReturns defaultOptions"
  by (simp add: validatorsReturn_def onErrorReturns_def callbackReturns_def defaultOptions_def)

lemma sinceOpts_returns: "validatorsReturn sinceOpts \<and> onErrorReturns sinceOpts"
  by (auto simp: validatorsReturn_def onErrorReturns_def callbackReturns_def sinceOpts_def
      defaultOptions_def fromEpoch_def split: if_splits jsval.splits option.splits)

theorem C9_witness_date_key:
  "(case getParams samplePlatform dateCfg sinceOpts (freshPage ''/?since=1970-01-01T00:00:00.000Z'') of
      Inl e \<Rightarrow> False
    | Inr (o1, w1) \<Rightarrow>
        (case getParams samplePlatform dateCfg sinceOpts w1 of
           Inl e \<Rightarrow> False
         | Inr (o2, w2) \<Rightarrow>
             props o1 = [(''since'', DateObj 1 (Some 0))] \<and> props o2 = [(''since'', DateObj 3 (Some 0))]
             \<and> validated w2 = [(''since'', DateObj 1 (Some 0)), (''since'', DateObj 3 (Some 0))]
             \<and> url w2 = ''/?since=1970-01-01T00:00:00.000Z'' \<and> \<not> shallowEqual o1 o2))"
proof -
  let ?w = "freshPage ''/?since=1970-01-01T00:00:00.000Z''"
  note r = sinceOpts_returns [THEN conjunct1] and q = sinceOpts_returns [THEN conjunct2]
  from getParams_returns [OF r q] obtain o1 w1 where
    g1: "getParams samplePlatform dateCfg sinceOpts ?w = Inr (o1, w1)" by blast
  from getParams_returns [OF r q] obtain o2 w2 where
    g2: "getParams samplePlatform dateCfg sinceOpts w1 = Inr (o2, w2)" by blast
  have ev: "(case getParams samplePlatform dateCfg sinceOpts ?w of
      Inl e \<Rightarrow> False
    | Inr (o1, w1) \<Rightarrow>
        (case getParams samplePlatform dateCfg sinceOpts w1 of
           Inl e \<Rightarrow> False
         | Inr (o2, w2) \<Rightarrow>
             props o1 = [(''since'', DateObj 1 (Some 0))] \<and> props o2 = [(''since'', DateObj 3 (Some 0))]
             \<and> validated w2 = [(''since'', DateObj 1 (Some 0)), (''since'', DateObj 3 (Some 0))]
             \<and> url w2 = ''/?since=1970-01-01T00:00:00.000Z''))"
    by code_simp
  have in_cfg: "(''since'', TDate) \<in> set dateCfg" and dist: "distinct (map fst dateCfg)"
    by (simp_all add: dateCfg_def)
  have fresh: "decodesFresh samplePlatform sinceOpts (getSearchParams ?w) ''since'' TDate"
    by code_simp
  have sp: "getSearchParams ?w = [(''since'', ''1970-01-01T00:00:00.000Z'')]"
    by code_simp
  have "decodedAt samplePlatform sinceOpts (getSearchParams ?w) ''since'' TDate a = DateObj a (Some 0)" for a
    unfolding sp
    by (simp add: decodedAt_def decodeKey_def parseSingle_def sp_get_def sinceOpts_def
        defaultOptions_def samplePlatform_def freshPage_def)
  then have nr: "notRejected samplePlatform sinceOpts (getSearchParams ?w) ''since'' TDate"
    by (simp add: notRejected_def sinceOpts_def fromEpoch_def)
  from C9_fresh_objects_compare_different [OF in_cfg dist fresh nr g1 g2]
  have "\<not> shallowEqual o1 o2" by simp
  with ev show ?thesis unfolding g1 sum.case prod.case g2 by simp
qed

text \<open>
  Claim C9 as stated fails: the declaration \<open>{filters: 'object'}\<close> at the address
  \<open>/?filters=1\<close>. The value of the key is present in the query string, \<open>JSON.parse\<close>
  gives the number 1, and two reads compare equal; a notification after mount
  publishes nothing. Two reads also compare equal for the declaration
  \<open>{since: 'date'}\<close> at \<open>/?since=abc\<close>, where the value is present and does not
  decode, and at \<open>/?since=1970-01-01T00:00:00.000Z\<close> with a validator that rejects
  every value, where the decoded date is replaced by the default.
\<close>

theorem C9_counterexample_object_key_with_number:
  "(case getParams samplePlatform objectCfg defaultOptions (freshPage ''/?filters=1'') of
      Inl e \<Rightarrow> False
    | Inr (o1, w1) \<Rightarrow>
        (case getParams samplePlatform objectCfg defaultOptions w1 of
           Inl e \<Rightarrow> False
         | Inr (o2, w2) \<Rightarrow>
             sp_get (getSearchParams w1) ''filters'' = Some ''1''
             \<and> props o1 = [(''filters'', Num (Fin 1))] \<and> props o2 = [(''filters'', Num (Fin 1))]
             \<and> shallowEqual o1 o2))
   \<and> (case mount samplePlatform 1 objectCfg defaultOptions (freshPage ''/?filters=1'') of
         Inl e \<Rightarrow> False
       | Inr w \<Rightarrow>
           (case handle samplePlatform 1 w of
              Inl e \<Rightarrow> False
            | Inr w' \<Rightarrow> invoked w' = [1] \<and> length (published w) = 1 \<and> length (published w') = 1))
   \<and> (case getParams samplePlatform dateCfg defaultOptions (freshPage ''/?since=abc'') of
      Inl e \<Rightarrow> False
    | Inr (o1, w1) \<Rightarrow>
        (case getParams samplePlatform dateCfg defaultOptions w1 of
           Inl e \<Rightarrow> False
         | Inr (o2, w2) \<Rightarrow>
             sp_get (getSearchParams w1) ''since'' = Some ''abc''
             \<and> props o1 = [(''since'', Undefined)] \<and> props o2 = [(''since'', Undefined)]
             \<and> shallowEqual o1 o2))
   \<and> (case getParams samplePlatform dateCfg
             (defaultOptions\<lparr>validation := [''since'' \<mapsto> (\<lambda>v. Inr False)]\<rparr>)
             (freshPage ''/?since=1970-01-01T00:00:00.000Z'') of
      Inl e \<Rightarrow> False
    | Inr (o1, w1) \<Rightarrow>
        (case getParams samplePlatform dateCfg
                (defaultOptions\<lparr>validation := [''since'' \<mapsto> (\<lambda>v. Inr False)]\<rparr>) w1 of
           Inl e \<Rightarrow> False
         | Inr (o2, w2) \<Rightarrow>
             validated w2 = [(''since'', DateObj 1 (Some 0)), (''since'', DateObj 3 (Some 0))]
             \<and> props o1 = [(''since'', Undefined)] \<and> props o2 = [(''since'', Undefined)]
             \<and> shallowEqual o1 o2))"
  by code_simp

section \<open>Applying a patch\<close>

subsection \<open>The address after a commit\<close>







subsection \<open>The values of a key\<close>







subsection \<open>One key of a patch\<close>










subsection \<open>The loop over a patch\<close>









subsection \<open>Sorting the pairs\<close>







subsection \<open>Applying a patch twice\<close>








definition sortedOpts :: options where
  "sortedOpts = defaultOptions\<lparr>sortKeys := True\<rparr>"


text \<open>
  The proviso on the collation cannot be dropped. \<open>localeCompare\<close> is 0 for two strings
  that are canonically equivalent, such as the two Unicode forms of the letter \<open>e\<close>
  with an acute accent: the single code point (\<open>composed\<close>, here in UTF-8) and the
  letter followed by the combining accent (\<open>decomposed\<close>). On a platform whose
  collation gives the two keys the same collation key, with \<open>sortKeys\<close> set, the patch
  that gives a list to the first key and a string to the second is committed twice: the
  stable sort keeps the two keys in the order the loop left them in, and the loop moves
  the list key behind the other.
\<close>

definition composed :: string where
  "composed = [CHR 0xC3, CHR 0xA9]"

definition decomposed :: string where
  "decomposed = [CHR ''e'', CHR 0xCC, CHR 0x81]"

definition equivalencePlatform :: "string host" where
  "equivalencePlatform = samplePlatform\<lparr>localeKey := (\<lambda>s. if s = decomposed then composed else s)\<rparr>"

lemma equivalent_keys_commit_twice:
  "localeKey equivalencePlatform composed = localeKey equivalencePlatform decomposed
   \<and> (case syncParams equivalencePlatform [(composed, TStringArr), (decomposed, TString)] sortedOpts
             [(composed, ArrObj 100 [JStr ''a'']), (decomposed, Str ''b'')] None (freshPage ''/'') of
         Inl e \<Rightarrow> False
       | Inr w1 \<Rightarrow>
           url w1 = ''/?%C3%A9=a&e%CC%81=b'' \<and> length (commits w1) = 1
           \<and> (case syncParams equivalencePlatform [(composed, TStringArr), (decomposed, TString)] sortedOpts
                     [(composed, ArrObj 100 [JStr ''a'']), (decomposed, Str ''b'')] None w1 of
                 Inl e \<Rightarrow> False
               | Inr w2 \<Rightarrow> url w2 = ''/?e%CC%81=b&%C3%A9=a'' \<and> length (commits w2) = 2))"
  by code_simp


end
